theory Spec2Isabelle
  imports Complex_Main "HOL-Library.AList"
begin

section \<open>Python values\<close>

text \<open>
  Wavelengths, fluxes and velocities are Python floats in the source. They are modelled
  as real numbers: every comparison and every arithmetic operation below is the exact
  one, and rounding is not modelled. A raise of the source is a value \<open>Inl e\<close> of the
  result type.
\<close>

datatype py_error =
    ValueError
  | IndexError
  | ZeroDivisionError
  | OverflowError
  | RuntimeError
  | AttributeError
  | TypeError
  | AssertionError string
  | SystemExit string

text \<open>A row of the rest-line catalog: the columns \<open>Ion\<close> and \<open>Wavelength\<close>.\<close>

type_synonym row = "string \<times> real"

text \<open>
  A Python dict keeps its keys in insertion order, and \<open>doppler_shift_calc\<close> iterates
  over the dict in that order, so the dict of groups is an association list:
  \<open>map_of\<close> looks a key up, \<open>AList.update\<close> assigns to a key (in place when the key
  exists, at the end otherwise).
\<close>

type_synonym ion_groups = "(string \<times> real list list) list"

text \<open>Python's \<open>max\<close> of a list: a ValueError on the empty list.\<close>

fun py_max :: "real list \<Rightarrow> py_error + real" where
  "py_max [] = Inl ValueError"
| "py_max (x # xs) = Inr (fold (\<lambda>item max_item. if max_item < item then item else max_item) xs x)"

text \<open>
  Reading position \<open>i\<close> of a list or of a numpy array, for \<open>i\<close> a non-negative literal or
  loop index: an IndexError out of range.
\<close>

definition getitem :: "'a list \<Rightarrow> nat \<Rightarrow> py_error + 'a" where
  "getitem xs i = (if i < length xs then Inr (xs ! i) else Inl IndexError)"

text \<open>
  Indexing a numpy array with a boolean mask, \<open>f[mask]\<close>: the entries of \<open>f\<close> where the mask
  is true, and an IndexError when the mask has another length than \<open>f\<close>.
\<close>

definition np_index :: "real list \<Rightarrow> bool list \<Rightarrow> py_error + real list" where
  "np_index f msk =
     (if length msk \<noteq> length f then Inl IndexError
      else Inr (map fst (filter snd (zip f msk))))"

text \<open>\<open>np.max\<close>: a ValueError on an array with no entry.\<close>

definition np_max :: "real list \<Rightarrow> py_error + real" where
  "np_max xs = (case xs of [] \<Rightarrow> Inl ValueError | x # ys \<Rightarrow> Inr (fold max ys x))"

text \<open>\<open>sum(xs) / len(xs)\<close>: the sum of the empty list is the integer 0, and \<open>0 / 0\<close> raises.\<close>

definition py_mean :: "real list \<Rightarrow> py_error + real" where
  "py_mean xs =
     (if length xs = 0 then Inl ZeroDivisionError else Inr (sum_list xs / real (length xs)))"

section \<open>The free function \<open>peak_width_finder\<close> of emission_lines.py\<close>

text \<open>
  The wavelength data is a numpy array: dividing a float by a numpy zero gives an infinity,
  whose \<open>math.floor\<close> raises an OverflowError.
\<close>

definition peak_width_finder :: "string \<Rightarrow> real list \<Rightarrow> py_error + (real \<times> int \<times> real)" where
  "peak_width_finder grating wavelength_data =
     (let peak_width = (if CHR ''L'' \<in> set grating then 5.0 else 0.5);
          flux_range = 2 * peak_width in
      case getitem wavelength_data 1 of
        Inl e \<Rightarrow> Inl e
      | Inr w1 \<Rightarrow>
          (case getitem wavelength_data 0 of
             Inl e \<Rightarrow> Inl e
           | Inr w0 \<Rightarrow>
               (let angstroms_to_pixels = w1 - w0 in
                if angstroms_to_pixels = 0 then Inl OverflowError
                else Inr (peak_width, \<lfloor>peak_width / angstroms_to_pixels\<rfloor>, flux_range))))"

section \<open>The free function \<open>grouping_emission_lines\<close> of emission_lines.py\<close>

definition tolerance :: real where
  "tolerance = 10"

text \<open>
  The inner loop \<open>for group in ion_groups[ion]\<close>: the first group whose maximum is
  within the tolerance of the wavelength gets the wavelength appended, and the loop
  breaks. The result is the flag \<open>close_group_found\<close> and the list of groups after the loop.
\<close>

fun scan_groups :: "real \<Rightarrow> real list list \<Rightarrow> py_error + (bool \<times> real list list)" where
  "scan_groups wavelength [] = Inr (False, [])"
| "scan_groups wavelength (grp # groups) =
     (case py_max grp of
        Inl e \<Rightarrow> Inl e
      | Inr m \<Rightarrow>
          if \<bar>m - wavelength\<bar> \<le> tolerance then Inr (True, (grp @ [wavelength]) # groups)
          else (case scan_groups wavelength groups of
                  Inl e \<Rightarrow> Inl e
                | Inr (found, groups') \<Rightarrow> Inr (found, grp # groups')))"

text \<open>The body of the loop over the rows of the catalog.\<close>

definition group_row :: "real \<Rightarrow> row \<Rightarrow> ion_groups \<Rightarrow> py_error + ion_groups" where
  "group_row min_wavelength r ion_groups =
     (let ion = fst r; wavelength = snd r in
      if wavelength < min_wavelength then Inr ion_groups
      else
        (case map_of ion_groups ion of
           None \<Rightarrow> Inr (AList.update ion [[wavelength]] ion_groups)
         | Some groups \<Rightarrow>
             (case scan_groups wavelength groups of
                Inl e \<Rightarrow> Inl e
              | Inr (close_group_found, groups') \<Rightarrow>
                  if \<not> close_group_found
                  then Inr (AList.update ion (groups' @ [[wavelength]]) ion_groups)
                  else Inr (AList.update ion groups' ion_groups))))"

fun group_rows :: "real \<Rightarrow> row list \<Rightarrow> ion_groups \<Rightarrow> py_error + ion_groups" where
  "group_rows min_wavelength [] ion_groups = Inr ion_groups"
| "group_rows min_wavelength (r # rows) ion_groups =
     (case group_row min_wavelength r ion_groups of
        Inl e \<Rightarrow> Inl e
      | Inr ion_groups' \<Rightarrow> group_rows min_wavelength rows ion_groups')"

definition grouping_emission_lines :: "real \<Rightarrow> row list \<Rightarrow> py_error + ion_groups" where
  "grouping_emission_lines min_wavelength rest_lam_data = group_rows min_wavelength rest_lam_data []"

section \<open>The class \<open>SpectrumData\<close> of spec2flux/spectrum_data.py\<close>

text \<open>The fields of a spectrum object that the methods below read.\<close>

record SpectrumData =
  resolution :: string
  wavelength_data :: "real list"
  rest_lam_data :: "row list"
  min_wavelength :: real

definition PEAK_WIDTH_LOW_RES :: real where
  "PEAK_WIDTH_LOW_RES = 5.0"

definition PEAK_WIDTH_HIGH_RES :: real where
  "PEAK_WIDTH_HIGH_RES = 0.5"

definition SpectrumData_peak_width_finder :: "SpectrumData \<Rightarrow> py_error + (real \<times> int \<times> real)" where
  "SpectrumData_peak_width_finder self =
     (let peak_width = (if resolution self = ''HIGH'' then PEAK_WIDTH_LOW_RES else PEAK_WIDTH_HIGH_RES);
          flux_range = 2 * peak_width in
      case getitem (wavelength_data self) 1 of
        Inl e \<Rightarrow> Inl e
      | Inr w1 \<Rightarrow>
          (case getitem (wavelength_data self) 0 of
             Inl e \<Rightarrow> Inl e
           | Inr w0 \<Rightarrow>
               (let angstroms_to_pixels = w1 - w0 in
                if angstroms_to_pixels = 0 then Inl OverflowError
                else Inr (peak_width, \<lfloor>peak_width / angstroms_to_pixels\<rfloor>, flux_range))))"

section \<open>The method \<open>EmissionLines.grouping_emission_lines\<close> of emission_line.py\<close>

text \<open>The method reads the catalog and the cutoff from \<open>self.spectrum\<close>.\<close>

fun el_scan_groups :: "real \<Rightarrow> real \<Rightarrow> real list list \<Rightarrow> py_error + (bool \<times> real list list)" where
  "el_scan_groups tol wavelength [] = Inr (False, [])"
| "el_scan_groups tol wavelength (grp # groups) =
     (case py_max grp of
        Inl e \<Rightarrow> Inl e
      | Inr m \<Rightarrow>
          if \<bar>m - wavelength\<bar> \<le> tol then Inr (True, (grp @ [wavelength]) # groups)
          else (case el_scan_groups tol wavelength groups of
                  Inl e \<Rightarrow> Inl e
                | Inr (found, groups') \<Rightarrow> Inr (found, grp # groups')))"

fun el_group_rows :: "SpectrumData \<Rightarrow> row list \<Rightarrow> ion_groups \<Rightarrow> py_error + ion_groups" where
  "el_group_rows self [] ion_groups = Inr ion_groups"
| "el_group_rows self (r # rows) ion_groups =
     (let ion = fst r; wavelength = snd r in
      if wavelength < min_wavelength self then el_group_rows self rows ion_groups
      else
        (case map_of ion_groups ion of
           None \<Rightarrow> el_group_rows self rows (AList.update ion [[wavelength]] ion_groups)
         | Some groups \<Rightarrow>
             (case el_scan_groups 10 wavelength groups of
                Inl e \<Rightarrow> Inl e
              | Inr (close_group_found, groups') \<Rightarrow>
                  if \<not> close_group_found
                  then el_group_rows self rows (AList.update ion (groups' @ [[wavelength]]) ion_groups)
                  else el_group_rows self rows (AList.update ion groups' ion_groups))))"

definition EmissionLines_grouping_emission_lines :: "SpectrumData \<Rightarrow> py_error + ion_groups" where
  "EmissionLines_grouping_emission_lines self = el_group_rows self (rest_lam_data self) []"

section \<open>The function \<open>doppler_shift_calc\<close> of emission_lines.py\<close>

subsection \<open>Models, records and the state of a run\<close>

text \<open>
  The parameters of a \<open>Voigt1D\<close> profile, and a model: one profile, or the sum of two models
  that the operator \<open>+\<close> of the modelling library builds.
\<close>

record Voigt1D =
  x_0 :: real
  amplitude_L :: real
  fwhm_L :: real
  fwhm_G :: real

datatype model = Voigt Voigt1D | Compound model model

text \<open>
  The outcome of the call \<open>fitter(composite_model, w[group_mask], f[group_mask])\<close>. The
  fitter is code of the modelling library and a parameter of the functions below. Its call
  returns a fitted model or raises. A solver that did not converge is not an exception of
  the library: the model is returned, with a warning, and the flag of the outcome says
  whether the solver converged. The source reads no such flag.
\<close>

datatype fit_outcome = Fitted model bool | Raises py_error

text \<open>The profiles of a model from left to right; \<open>fitted_model[i]\<close> reads this list.\<close>

fun submodels :: "model \<Rightarrow> Voigt1D list" where
  "submodels (Voigt v) = [v]"
| "submodels (Compound a b) = submodels a @ submodels b"

text \<open>The class \<open>emission_line\<close>; a field that holds Python's None is an option.\<close>

record emission_line =
  wavelength_group :: "real list"
  ion :: string
  obs_lam :: "real option"
  flux_mask :: "bool list"
  noise_bool :: "bool option"
  blended_bool :: bool
  fitted_model :: "model option"
  continuum :: "real option"

text \<open>
  The state of a run: the three lists of the module (\<open>noise_bool_list\<close>,
  \<open>doppler_bool_list\<close>, \<open>emission_line_list\<close>), the four lists local to
  \<open>doppler_shift_calc\<close>, and the keys the user is going to press, one entry for each figure
  shown (\<open>None\<close>: the figure is closed with no key pressed).

  The objects of \<open>emission_line_objs\<close> are objects of \<open>emission_line_list\<close>, so the former is a
  list of positions in the latter, and \<open>update_fitted_model\<close> writes through the position.
\<close>

record state =
  noise_bool_list :: "bool list"
  doppler_bool_list :: "bool list"
  emission_line_list :: "emission_line list"
  rest_candidates :: "real list list"
  obs_candidates :: "real list list"
  emission_line_objs :: "nat list"
  all_fitted_models :: "model list"
  key_events :: "string option list"

definition update_fitted_model :: "nat \<Rightarrow> model \<Rightarrow> state \<Rightarrow> state" where
  "update_fitted_model ref new_fitted_model st =
     st\<lparr>emission_line_list :=
          (emission_line_list st)[ref := (emission_line_list st ! ref)\<lparr>fitted_model := Some new_fitted_model\<rparr>]\<rparr>"

subsection \<open>The function \<open>on_key\<close> and the figure\<close>

definition invalid_purpose :: string where
  "invalid_purpose = ''Invalid purpose, select 'Noise Detection' or 'Doppler Calculation'' @ [CHR 0x27]"

definition invalid_key :: string where
  "invalid_key = ''Invalid key input, select 'y' or 'n'' @ [CHR 0x27]"

definition on_key :: "string \<Rightarrow> string \<Rightarrow> state \<Rightarrow> py_error + state" where
  "on_key event_key purpose st =
     (if purpose \<notin> set [''Noise Detection'', ''Doppler Calculation''] then Inl (SystemExit invalid_purpose)
      else if event_key \<notin> {''y'', ''n''} then Inl (SystemExit invalid_key)
      else if purpose = ''Noise Detection''
        then Inr (st\<lparr>noise_bool_list := noise_bool_list st @ [event_key = ''y'']\<rparr>)
      else if purpose = ''Doppler Calculation''
        then Inr (st\<lparr>doppler_bool_list := doppler_bool_list st @ [event_key = ''y'']\<rparr>)
      else Inr st)"

text \<open>
  \<open>plt.show()\<close> with the handler connected to the figure: it returns when the figure is
  closed; a key pressed meanwhile calls \<open>on_key\<close> with the purpose of this function.
\<close>

definition plt_show :: "state \<Rightarrow> py_error + state" where
  "plt_show st =
     (case key_events st of
        [] \<Rightarrow> Inr st
      | None # events \<Rightarrow> Inr (st\<lparr>key_events := events\<rparr>)
      | Some event_key # events \<Rightarrow> on_key event_key ''Doppler Calculation'' (st\<lparr>key_events := events\<rparr>))"

subsection \<open>Masks and the composite model of a group\<close>

definition group_mask :: "real list \<Rightarrow> real list \<Rightarrow> real \<Rightarrow> py_error + bool list" where
  "group_mask w grp peak_width =
     (case getitem grp 0 of
        Inl e \<Rightarrow> Inl e
      | Inr first \<Rightarrow>
          (case getitem grp (length grp - 1) of
             Inl e \<Rightarrow> Inl e
           | Inr final \<Rightarrow> Inr (map (\<lambda>x. first - peak_width < x \<and> x < final + peak_width) w)))"

definition wavelength_mask :: "real list \<Rightarrow> real \<Rightarrow> real \<Rightarrow> bool list" where
  "wavelength_mask w wavelength peak_width =
     map (\<lambda>x. wavelength - peak_width / 2 < x \<and> x < wavelength + peak_width / 2) w"

text \<open>The loop \<open>for wavelength in group\<close> that fills the list \<open>voigt_profiles\<close>.\<close>

fun voigt_profiles :: "real list \<Rightarrow> real list \<Rightarrow> real \<Rightarrow> real list \<Rightarrow> py_error + Voigt1D list" where
  "voigt_profiles w f peak_width [] = Inr []"
| "voigt_profiles w f peak_width (wavelength # wavelengths) =
     (case np_index f (wavelength_mask w wavelength peak_width) of
        Inl e \<Rightarrow> Inl e
      | Inr selected \<Rightarrow>
          (case np_max selected of
             Inl e \<Rightarrow> Inl e
           | Inr init_amp \<Rightarrow>
               (case voigt_profiles w f peak_width wavelengths of
                  Inl e \<Rightarrow> Inl e
                | Inr profiles \<Rightarrow>
                    Inr (\<lparr>x_0 = wavelength, amplitude_L = init_amp, fwhm_L = 0.1, fwhm_G = 0.1\<rparr>
                         # profiles))))"

text \<open>\<open>composite_model = voigt_profiles[0]\<close>, then \<open>+=\<close> for each further profile.\<close>

definition composite_model :: "Voigt1D list \<Rightarrow> py_error + model" where
  "composite_model profiles =
     (case profiles of
        [] \<Rightarrow> Inl IndexError
      | v # vs \<Rightarrow> Inr (foldl (\<lambda>m voigt_profile. Compound m (Voigt voigt_profile)) (Voigt v) vs))"

subsection \<open>The observed wavelengths of a fitted group\<close>

text \<open>
  \<open>fitted_model.x_0.value\<close> for a group of one line, \<open>fitted_model[i].x_0.value\<close> otherwise.
  A sum of profiles has no attribute \<open>x_0\<close>, a single profile has no index, and an index
  beyond the profiles of a sum is an IndexError.
\<close>

fun group_obs :: "model \<Rightarrow> nat \<Rightarrow> nat \<Rightarrow> nat \<Rightarrow> py_error + real list" where
  "group_obs fitted len i 0 = Inr []"
| "group_obs fitted len i (Suc n) =
     (if len = 1 then
        (case fitted of Voigt v \<Rightarrow> Inr [x_0 v] | Compound a b \<Rightarrow> Inl AttributeError)
      else
        (case fitted of
           Voigt v \<Rightarrow> Inl TypeError
         | Compound a b \<Rightarrow>
             (case getitem (submodels fitted) i of
                Inl e \<Rightarrow> Inl e
              | Inr v \<Rightarrow>
                  (case group_obs fitted len (Suc i) n of
                     Inl e \<Rightarrow> Inl e
                   | Inr obs \<Rightarrow> Inr (x_0 v # obs)))))"

subsection \<open>One group, all groups\<close>

text \<open>
  The body of the loop over the groups. The \<open>try\<close> around the call of the fitter catches
  a RuntimeError and goes on with the next group; every other exception ends the run.
\<close>

definition process_group ::
  "(model \<Rightarrow> real list \<Rightarrow> real list \<Rightarrow> fit_outcome) \<Rightarrow> real list \<Rightarrow> real list \<Rightarrow> real
     \<Rightarrow> string \<Rightarrow> real list \<Rightarrow> state \<Rightarrow> py_error + state" where
  "process_group fitter w f peak_width ion_name grp st =
     (case group_mask w grp peak_width of
        Inl e \<Rightarrow> Inl e
      | Inr gmask \<Rightarrow>
     (case voigt_profiles w f peak_width grp of
        Inl e \<Rightarrow> Inl e
      | Inr profiles \<Rightarrow>
     (case np_index f gmask of
        Inl e \<Rightarrow> Inl e
      | Inr f_masked \<Rightarrow>
     (let group_emission_line_obj =
            \<lparr>wavelength_group = grp, ion = ion_name, obs_lam = None, flux_mask = gmask,
             noise_bool = None, blended_bool = (length f_masked > 1), fitted_model = None,
             continuum = None\<rparr>;
          ref = length (emission_line_list st);
          st1 = st\<lparr>emission_line_list := emission_line_list st @ [group_emission_line_obj]\<rparr>
      in
     (case composite_model profiles of
        Inl e \<Rightarrow> Inl e
      | Inr composite \<Rightarrow>
     (case np_index w gmask of
        Inl e \<Rightarrow> Inl e
      | Inr w_masked \<Rightarrow>
     (case fitter composite w_masked f_masked of
        Raises e \<Rightarrow> (if e = RuntimeError then Inr st1 else Inl e)
      | Fitted fitted converged \<Rightarrow>
     (let st2 = st1\<lparr>all_fitted_models := all_fitted_models st1 @ [fitted],
                    emission_line_objs := emission_line_objs st1 @ [ref]\<rparr>
      in
     (case group_obs fitted (length grp) 0 (length grp) of
        Inl e \<Rightarrow> Inl e
      | Inr group_obs_candidates \<Rightarrow>
     (case plt_show st2 of
        Inl e \<Rightarrow> Inl e
      | Inr st3 \<Rightarrow>
          Inr (st3\<lparr>rest_candidates := rest_candidates st3 @ [grp],
                   obs_candidates := obs_candidates st3 @ [group_obs_candidates]\<rparr>)))))))))))"

fun process_groups ::
  "(model \<Rightarrow> real list \<Rightarrow> real list \<Rightarrow> fit_outcome) \<Rightarrow> real list \<Rightarrow> real list \<Rightarrow> real
     \<Rightarrow> string \<Rightarrow> real list list \<Rightarrow> state \<Rightarrow> py_error + state" where
  "process_groups fitter w f peak_width ion_name [] st = Inr st"
| "process_groups fitter w f peak_width ion_name (grp # groups) st =
     (case process_group fitter w f peak_width ion_name grp st of
        Inl e \<Rightarrow> Inl e
      | Inr st' \<Rightarrow> process_groups fitter w f peak_width ion_name groups st')"

fun process_ions ::
  "(model \<Rightarrow> real list \<Rightarrow> real list \<Rightarrow> fit_outcome) \<Rightarrow> real list \<Rightarrow> real list \<Rightarrow> real
     \<Rightarrow> ion_groups \<Rightarrow> state \<Rightarrow> py_error + state" where
  "process_ions fitter w f peak_width [] st = Inr st"
| "process_ions fitter w f peak_width ((ion_name, groups) # grouped_lines) st =
     (case process_groups fitter w f peak_width ion_name groups st of
        Inl e \<Rightarrow> Inl e
      | Inr st' \<Rightarrow> process_ions fitter w f peak_width grouped_lines st')"

subsection \<open>The aggregation\<close>

definition c_km_s :: real where
  "c_km_s = 299792.458"

text \<open>
  Modelled from the spec: the conversion
  \<open>u_obs_lam.to(u.km/u.s, equivalencies=u.doppler_optical(u_rest_lam))\<close> is a call into the
  units library, whose code is not part of the repository; the specification gives it as the
  optical Doppler relation \<open>v = c (obs - rest) / rest\<close>, in km/s.
\<close>

definition doppler_optical :: "real \<Rightarrow> real \<Rightarrow> real" where
  "doppler_optical rest_wavelength observed = c_km_s * (observed - rest_wavelength) / rest_wavelength"

text \<open>The loop \<open>for j, rest_wavelength in enumerate(rest_candidates[i])\<close>.\<close>

fun group_doppler :: "real list list \<Rightarrow> nat \<Rightarrow> nat \<Rightarrow> real list \<Rightarrow> py_error + real list" where
  "group_doppler obs i j [] = Inr []"
| "group_doppler obs i j (rest_wavelength # rests) =
     (case getitem obs i of
        Inl e \<Rightarrow> Inl e
      | Inr obs_i \<Rightarrow>
          (case getitem obs_i j of
             Inl e \<Rightarrow> Inl e
           | Inr observed \<Rightarrow>
               (case group_doppler obs i (Suc j) rests of
                  Inl e \<Rightarrow> Inl e
                | Inr velocities \<Rightarrow> Inr (doppler_optical rest_wavelength observed # velocities))))"

text \<open>The loop \<open>for i, boolean in enumerate(doppler_bool_list)\<close>.\<close>

fun doppler_loop :: "nat \<Rightarrow> bool list \<Rightarrow> real list \<Rightarrow> state \<Rightarrow> py_error + (real list \<times> state)" where
  "doppler_loop i [] dv st = Inr (dv, st)"
| "doppler_loop i (boolean # booleans) dv st =
     (if boolean then
        (case getitem (emission_line_objs st) i of
           Inl e \<Rightarrow> Inl e
         | Inr ref \<Rightarrow>
        (case getitem (all_fitted_models st) i of
           Inl e \<Rightarrow> Inl e
         | Inr fitted \<Rightarrow>
        (let st' = update_fitted_model ref fitted st in
        (case getitem (rest_candidates st') i of
           Inl e \<Rightarrow> Inl e
         | Inr rests \<Rightarrow>
        (case group_doppler (obs_candidates st') i 0 rests of
           Inl e \<Rightarrow> Inl e
         | Inr velocities \<Rightarrow>
        (case py_mean velocities of
           Inl e \<Rightarrow> Inl e
         | Inr v \<Rightarrow> doppler_loop (Suc i) booleans (dv @ [v]) st'))))))
      else doppler_loop (Suc i) booleans dv st)"

definition no_decision :: string where
  "no_decision = ''You didn't click 'y' and 'n' to choose did you?''"

definition count_mismatch :: string where
  "count_mismatch = ''Did you click out of the figure instead of clicking 'y' or 'n'?''"

text \<open>The two assertions and the loops after them, up to the value of \<open>doppler_shift\<close>.\<close>

definition doppler_aggregate :: "state \<Rightarrow> py_error + (real \<times> state)" where
  "doppler_aggregate st =
     (if \<not> length (doppler_bool_list st) > 0 then Inl (AssertionError no_decision)
      else if length (doppler_bool_list st) \<noteq> length (rest_candidates st)
        then Inl (AssertionError count_mismatch)
      else
        (case doppler_loop 0 (doppler_bool_list st) [] st of
           Inl e \<Rightarrow> Inl e
         | Inr (dv, st') \<Rightarrow>
             (case py_mean dv of
                Inl e \<Rightarrow> Inl e
              | Inr doppler_shift \<Rightarrow> Inr (doppler_shift, st'))))"

text \<open>
  The whole function, from the state of the module at the call. The line appended to the
  file \<open>doppler_filename\<close> is the returned value, printed; the file is not part of the state.
\<close>

definition doppler_shift_calc ::
  "(model \<Rightarrow> real list \<Rightarrow> real list \<Rightarrow> fit_outcome) \<Rightarrow> ion_groups \<Rightarrow> real list \<Rightarrow> real list \<Rightarrow> real
     \<Rightarrow> state \<Rightarrow> py_error + (real \<times> state)" where
  "doppler_shift_calc fitter grouped_lines w f peak_width st =
     (case process_ions fitter w f peak_width grouped_lines
             (st\<lparr>rest_candidates := [], obs_candidates := [], emission_line_objs := [],
                 all_fitted_models := []\<rparr>) of
        Inl e \<Rightarrow> Inl e
      | Inr st' \<Rightarrow> doppler_aggregate st')"

section \<open>The grouping as the specification words it\<close>

text \<open>
  A wavelength is within the tolerance of a group when it is at most 10 away from the
  group's current maximum.
\<close>

definition within_tolerance :: "real \<Rightarrow> real list \<Rightarrow> bool" where
  "within_tolerance wavelength g \<longleftrightarrow> \<bar>Max (set g) - wavelength\<bar> \<le> 10"

text \<open>
  The wavelength is appended to the first group of the list that it is within the tolerance
  of; when there is none, a new singleton group is appended to the list.
\<close>

definition spec_place :: "real \<Rightarrow> real list list \<Rightarrow> real list list" where
  "spec_place wavelength gs =
     (let i = length (takeWhile (\<lambda>g. \<not> within_tolerance wavelength g) gs) in
      if i < length gs then gs[i := gs ! i @ [wavelength]] else gs @ [[wavelength]])"

text \<open>
  One catalog row: dropped below the cutoff, placed among the groups of its ion otherwise
  (an ion seen for the first time has no group yet).
\<close>

definition spec_row :: "real \<Rightarrow> (string \<rightharpoonup> real list list) \<Rightarrow> row \<Rightarrow> (string \<rightharpoonup> real list list)" where
  "spec_row cutoff m r =
     (if snd r < cutoff then m
      else m(fst r \<mapsto> spec_place (snd r) (case m (fst r) of None \<Rightarrow> [] | Some gs \<Rightarrow> gs)))"

definition spec_grouping :: "real \<Rightarrow> row list \<Rightarrow> (string \<rightharpoonup> real list list)" where
  "spec_grouping cutoff catalog = foldl (spec_row cutoff) Map.empty catalog"

section \<open>The aggregation as the specification words it\<close>

definition mean :: "real list \<Rightarrow> real" where
  "mean xs = sum_list xs / real (length xs)"

text \<open>The velocity of a group: the mean of the optical Doppler velocities of its pairs.\<close>

definition group_velocity :: "real list \<Rightarrow> real list \<Rightarrow> real" where
  "group_velocity rests observed =
     mean (map (\<lambda>(rest, obs). c_km_s * (obs - rest) / rest) (zip rests observed))"

text \<open>The accepted groups: the rest and observed wavelengths of the groups decided with \<open>y\<close>.\<close>

definition accepted :: "state \<Rightarrow> (real list \<times> real list) list" where
  "accepted st =
     map snd (filter fst (zip (doppler_bool_list st) (zip (rest_candidates st) (obs_candidates st))))"

text \<open>
  The four local lists as the loop over the groups leaves them: one entry for each fitted
  group, with as many observed as rest wavelengths, and at least one.
\<close>

definition aligned :: "state \<Rightarrow> bool" where
  "aligned st \<longleftrightarrow>
     length (emission_line_objs st) = length (rest_candidates st) \<and>
     length (all_fitted_models st) = length (rest_candidates st) \<and>
     list_all2 (\<lambda>rests observed. rests \<noteq> [] \<and> length observed = length rests)
       (rest_candidates st) (obs_candidates st)"

section \<open>The grouping: proofs\<close>

lemma py_max_Max: "g \<noteq> [] \<Longrightarrow> py_max g = Inr (Max (set g))"
proof (cases g)
  case Nil
  then show "g \<noteq> [] \<Longrightarrow> ?thesis" by simp
next
  case (Cons x xs)
  have "(\<lambda>item max_item. if max_item < item then item else max_item) = (max :: real \<Rightarrow> real \<Rightarrow> real)"
    by (intro ext) (simp add: max_def)
  moreover have "Max (set (x # xs)) = fold max xs x"
    by (rule Max.set_eq_fold)
  ultimately show ?thesis using Cons by (simp only: py_max.simps)
qed

lemma spec_place_Nil: "spec_place wl [] = [[wl]]"
  by (simp add: spec_place_def)

lemma spec_place_Cons:
  "spec_place wl (g # gs) = (if within_tolerance wl g then (g @ [wl]) # gs else g # spec_place wl gs)"
  by (simp add: spec_place_def Let_def)

lemma scan_groups_spec:
  "[] \<notin> set gs \<Longrightarrow>
   \<exists>found gs'. scan_groups wl gs = Inr (found, gs') \<and>
      (if found then gs' else gs' @ [[wl]]) = spec_place wl gs \<and> length gs' = length gs"
proof (induction gs)
  case Nil
  have "scan_groups wl [] = Inr (False, []) \<and>
      (if False then [] else [] @ [[wl]]) = spec_place wl [] \<and> length ([]::real list list) = length ([]::real list list)"
    by (simp add: spec_place_Nil)
  then show ?case by blast
next
  case (Cons g gs)
  then have ne: "g \<noteq> []" and rest: "[] \<notin> set gs" by auto
  from Cons.IH [OF rest] obtain found gs' where
    s: "scan_groups wl gs = Inr (found, gs')" and
    p: "(if found then gs' else gs' @ [[wl]]) = spec_place wl gs" and l: "length gs' = length gs"
    by blast
  show ?case
    using s p l py_max_Max [OF ne]
    by (auto simp: spec_place_Cons within_tolerance_def tolerance_def)
qed

lemma update_entries:
  "(k', gs) \<in> set (AList.update k v al) \<Longrightarrow> gs = v \<or> (k', gs) \<in> set al"
  by (induction al) (auto split: if_splits)

lemma group_row_eq:
  assumes "\<And>k gs. (k, gs) \<in> set d \<Longrightarrow> [] \<notin> set gs"
  shows "group_row m r d =
    Inr (if snd r < m then d
         else AList.update (fst r)
                (spec_place (snd r) (case map_of d (fst r) of None \<Rightarrow> [] | Some gs \<Rightarrow> gs)) d)"
proof (cases "map_of d (fst r)")
  case None
  then show ?thesis by (simp add: group_row_def Let_def spec_place_Nil)
next
  case (Some gs)
  then have "(fst r, gs) \<in> set d" by (rule map_of_SomeD)
  then have "[] \<notin> set gs" by (rule assms)
  from scan_groups_spec [OF this, of "snd r"] obtain found gs' where
    "scan_groups (snd r) gs = Inr (found, gs')"
    "(if found then gs' else gs' @ [[snd r]]) = spec_place (snd r) gs"
    by blast
  with Some show ?thesis by (auto simp: group_row_def Let_def split: if_splits)
qed

lemma spec_place_invariant:
  assumes "\<forall>g\<in>set gs. g \<noteq> [] \<and> P g" and "P [w]"
    and "\<And>g. P g \<Longrightarrow> g \<noteq> [] \<Longrightarrow> \<bar>Max (set g) - w\<bar> \<le> 10 \<Longrightarrow> P (g @ [w])"
  shows "\<forall>g\<in>set (spec_place w gs). g \<noteq> [] \<and> P g"
  using assms(1)
proof (induction gs)
  case Nil
  then show ?case using assms(2) by (simp add: spec_place_Nil)
next
  case (Cons g gs)
  then show ?case using assms(3) [of g]
    by (auto simp: spec_place_Cons within_tolerance_def)
qed

lemma group_row_invariant:
  assumes single: "\<And>w. \<not> w < m \<Longrightarrow> P [w]"
    and app: "\<And>g w. P g \<Longrightarrow> g \<noteq> [] \<Longrightarrow> \<not> w < m \<Longrightarrow> \<bar>Max (set g) - w\<bar> \<le> 10 \<Longrightarrow> P (g @ [w])"
    and inv: "\<And>k gs g. (k, gs) \<in> set d \<Longrightarrow> g \<in> set gs \<Longrightarrow> g \<noteq> [] \<and> P g"
    and row: "group_row m r d = Inr d'"
    and mem: "(k, gs) \<in> set d'" "g \<in> set gs"
  shows "g \<noteq> [] \<and> P g"
proof (cases "snd r < m")
  case True
  have "\<And>k gs. (k, gs) \<in> set d \<Longrightarrow> [] \<notin> set gs" using inv by blast
  from group_row_eq [OF this, where m = m and r = r] row True have "d' = d" by simp
  with mem inv show ?thesis by blast
next
  case False
  let ?old = "case map_of d (fst r) of None \<Rightarrow> [] | Some gs \<Rightarrow> gs"
  have "\<And>k gs. (k, gs) \<in> set d \<Longrightarrow> [] \<notin> set gs" using inv by blast
  from group_row_eq [OF this, where m = m and r = r] row False
  have d': "d' = AList.update (fst r) (spec_place (snd r) ?old) d" by simp
  have old: "\<forall>g\<in>set ?old. g \<noteq> [] \<and> P g"
  proof (cases "map_of d (fst r)")
    case None
    then show ?thesis by simp
  next
    case (Some gs0)
    then have "(fst r, gs0) \<in> set d" by (rule map_of_SomeD)
    then have "\<forall>g\<in>set gs0. g \<noteq> [] \<and> P g" using inv by blast
    with Some show ?thesis by simp
  qed
  have new: "\<forall>g\<in>set (spec_place (snd r) ?old). g \<noteq> [] \<and> P g"
    by (rule spec_place_invariant [OF old single [OF False]]) (rule app [OF _ _ False])
  from mem(1) d' have "gs = spec_place (snd r) ?old \<or> (k, gs) \<in> set d"
    using update_entries by fast
  then show ?thesis
  proof
    assume "gs = spec_place (snd r) ?old"
    with new mem(2) show ?thesis by blast
  next
    assume "(k, gs) \<in> set d"
    then show ?thesis using mem(2) by (rule inv)
  qed
qed

lemma group_rows_invariant:
  assumes single: "\<And>w. \<not> w < m \<Longrightarrow> P [w]"
    and app: "\<And>g w. P g \<Longrightarrow> g \<noteq> [] \<Longrightarrow> \<not> w < m \<Longrightarrow> \<bar>Max (set g) - w\<bar> \<le> 10 \<Longrightarrow> P (g @ [w])"
  shows "(\<And>k gs g. (k, gs) \<in> set d \<Longrightarrow> g \<in> set gs \<Longrightarrow> g \<noteq> [] \<and> P g) \<Longrightarrow>
         \<exists>d'. group_rows m rows d = Inr d' \<and>
              (\<forall>k gs g. (k, gs) \<in> set d' \<longrightarrow> g \<in> set gs \<longrightarrow> g \<noteq> [] \<and> P g)"
proof (induction rows arbitrary: d)
  case Nil
  then show ?case by simp
next
  case (Cons r rows)
  have "\<exists>d1. group_row m r d = Inr d1"
    by (rule exI, rule group_row_eq) (use Cons.prems in blast)
  then obtain d1 where row: "group_row m r d = Inr d1" ..
  have "g \<noteq> [] \<and> P g" if "(k, gs) \<in> set d1" "g \<in> set gs" for k gs g
    using single app _ row that
  proof (rule group_row_invariant [where P = P])
    show "\<And>k gs g. (k, gs) \<in> set d \<Longrightarrow> g \<in> set gs \<Longrightarrow> g \<noteq> [] \<and> P g"
      by (rule Cons.prems)
  qed
  then have "\<exists>d'. group_rows m rows d1 = Inr d' \<and>
              (\<forall>k gs g. (k, gs) \<in> set d' \<longrightarrow> g \<in> set gs \<longrightarrow> g \<noteq> [] \<and> P g)"
    by (rule Cons.IH)
  with row show ?case by simp
qed

lemma group_rows_spec:
  "(\<And>k gs. (k, gs) \<in> set d \<Longrightarrow> [] \<notin> set gs) \<Longrightarrow> distinct (map fst d) \<Longrightarrow>
   \<exists>d'. group_rows m rows d = Inr d' \<and> map_of d' = foldl (spec_row m) (map_of d) rows
        \<and> distinct (map fst d')"
proof (induction rows arbitrary: d)
  case Nil
  then show ?case by simp
next
  case (Cons r rows)
  let ?old = "case map_of d (fst r) of None \<Rightarrow> [] | Some gs \<Rightarrow> gs"
  let ?d' = "if snd r < m then d else AList.update (fst r) (spec_place (snd r) ?old) d"
  have row: "group_row m r d = Inr ?d'"
    by (rule group_row_eq) (use Cons.prems(1) in blast)
  have inv: "g \<noteq> [] \<and> True" if "(k, gs) \<in> set d" "g \<in> set gs" for k gs g
    using Cons.prems(1) that by blast
  have "g \<noteq> [] \<and> True" if "(k, gs) \<in> set ?d'" "g \<in> set gs" for k gs g
    by (rule group_row_invariant [where P = "\<lambda>_. True" and m = m and d = d, OF _ _ _ row that])
      (simp_all add: inv)
  then have ne: "[] \<notin> set gs" if "(k, gs) \<in> set ?d'" for k gs
    using that by blast
  have dist: "distinct (map fst ?d')" using Cons.prems(2) by (simp add: distinct_update)
  have m: "map_of ?d' = spec_row m (map_of d) r"
    by (simp add: spec_row_def update_conv')
  have "\<exists>d'. group_rows m rows ?d' = Inr d' \<and> map_of d' = foldl (spec_row m) (map_of ?d') rows
        \<and> distinct (map fst d')"
    using ne dist by (rule Cons.IH)
  with row m show ?case by simp
qed

lemma Max_take_sorted:
  assumes "sorted g" "Suc i < length g"
  shows "Max (set (take (Suc i) g)) = g ! i"
proof (rule Max_eqI)
  show "finite (set (take (Suc i) g))" by simp
  show "g ! i \<in> set (take (Suc i) g)"
    using assms(2) by (auto simp: in_set_conv_nth intro!: exI [of _ i])
  fix y assume "y \<in> set (take (Suc i) g)"
  then obtain j where "j < Suc i" "y = g ! j"
    using assms(2) by (auto simp: in_set_conv_nth)
  with assms show "y \<le> g ! i" by (simp add: sorted_nth_mono)
qed

lemma Max_take_sorted_rev:
  assumes "sorted (rev g)" "Suc i < length g"
  shows "Max (set (take (Suc i) g)) = g ! 0"
proof (rule Max_eqI)
  show "finite (set (take (Suc i) g))" by simp
  show "g ! 0 \<in> set (take (Suc i) g)"
    using assms(2) by (auto simp: in_set_conv_nth intro!: exI [of _ 0])
  fix y assume "y \<in> set (take (Suc i) g)"
  then obtain j where j: "j < Suc i" "y = g ! j"
    using assms(2) by (auto simp: in_set_conv_nth)
  from assms(1) have "sorted_wrt (\<ge>) g" by (simp add: sorted_wrt_rev)
  with j assms(2) show "y \<le> g ! 0"
    by (cases j) (auto simp: sorted_wrt_iff_nth_less)
qed

lemma descending_nth:
  assumes "sorted (rev g)" "Suc i < length g"
  shows "g ! Suc i \<le> g ! i" "g ! i \<le> (g ! 0 :: real)"
proof -
  from assms(1) have s: "sorted_wrt (\<ge>) g" by (simp add: sorted_wrt_rev)
  with assms(2) show "g ! Suc i \<le> g ! i" by (auto simp: sorted_wrt_iff_nth_less)
  from s assms(2) show "g ! i \<le> g ! 0" by (cases i) (auto simp: sorted_wrt_iff_nth_less)
qed

lemma chain_append:
  assumes "\<forall>i. 0 < i \<and> i < length g \<longrightarrow> \<bar>Max (set (take i g)) - g ! i\<bar> \<le> (10::real)"
    and "\<bar>Max (set g) - w\<bar> \<le> 10"
  shows "\<forall>i. 0 < i \<and> i < length (g @ [w]) \<longrightarrow> \<bar>Max (set (take i (g @ [w]))) - (g @ [w]) ! i\<bar> \<le> 10"
proof (intro allI impI)
  fix i assume i: "0 < i \<and> i < length (g @ [w])"
  show "\<bar>Max (set (take i (g @ [w]))) - (g @ [w]) ! i\<bar> \<le> 10"
  proof (cases "i < length g")
    case True
    with assms(1) i show ?thesis by (simp add: nth_append)
  next
    case False
    with i have "i = length g" by simp
    with assms(2) show ?thesis by simp
  qed
qed

lemma grouping_invariant:
  assumes "grouping_emission_lines cutoff catalog = Inr d" "(k, gs) \<in> set d" "g \<in> set gs"
  shows "g \<noteq> [] \<and> (\<forall>x\<in>set g. cutoff \<le> x) \<and>
         (\<forall>i. 0 < i \<and> i < length g \<longrightarrow> \<bar>Max (set (take i g)) - g ! i\<bar> \<le> 10)"
proof -
  let ?P = "\<lambda>g. (\<forall>x\<in>set g. cutoff \<le> x) \<and>
         (\<forall>i. 0 < i \<and> i < length g \<longrightarrow> \<bar>Max (set (take i g)) - g ! i\<bar> \<le> (10::real))"
  have single: "?P [w]" if "\<not> w < cutoff" for w using that by simp
  have app: "?P (g @ [w])" if "?P g" "g \<noteq> []" "\<not> w < cutoff" "\<bar>Max (set g) - w\<bar> \<le> 10" for g w
  proof
    show "\<forall>x\<in>set (g @ [w]). cutoff \<le> x" using that(1,3) by auto
    show "\<forall>i. 0 < i \<and> i < length (g @ [w]) \<longrightarrow> \<bar>Max (set (take i (g @ [w]))) - (g @ [w]) ! i\<bar> \<le> 10"
      using that(1,4) by (intro chain_append) simp_all
  qed
  have "\<exists>d'. group_rows cutoff catalog [] = Inr d' \<and>
              (\<forall>k gs g. (k, gs) \<in> set d' \<longrightarrow> g \<in> set gs \<longrightarrow> g \<noteq> [] \<and> ?P g)"
    by (rule group_rows_invariant [where P = ?P], rule single, assumption, rule app) simp_all
  with assms show ?thesis by (auto simp: grouping_emission_lines_def)
qed

lemma el_scan_groups_eq: "el_scan_groups 10 wavelength groups = scan_groups wavelength groups"
  by (induction groups) (simp_all add: tolerance_def split: sum.splits)

lemma el_group_rows_eq: "el_group_rows self rows d = group_rows (min_wavelength self) rows d"
  by (induction rows arbitrary: d)
    (simp_all add: group_row_def Let_def el_scan_groups_eq split: option.splits sum.splits prod.splits)

text \<open>
  Claim C1. For every catalog, read in its order, and every cutoff, the grouping returns
  (it raises nothing) the mapping that the specification describes: each row at or above
  the cutoff is appended to the first group of its ion whose current maximum is at most 10
  away, and starts a new singleton group at the end of the ion's groups when there is no
  such group, in particular for an ion seen for the first time. Each ion is a key once.
  The three \<open>O_I\<close> lines 1302.0, 1304.5 and 1306.0 give the one group of the three, for
  every cutoff that keeps them.
\<close>

theorem grouping_refines_spec:
  "(\<exists>d. grouping_emission_lines cutoff catalog = Inr d \<and>
        map_of d = spec_grouping cutoff catalog \<and> distinct (map fst d)) \<and>
   (cutoff \<le> 1302 \<longrightarrow>
      grouping_emission_lines cutoff [(''O_I'', 1302), (''O_I'', 1304.5), (''O_I'', 1306)]
        = Inr [(''O_I'', [[1302, 1304.5, 1306]])])"
proof
  have "\<exists>d'. group_rows cutoff catalog [] = Inr d' \<and>
          map_of d' = foldl (spec_row cutoff) (map_of []) catalog \<and> distinct (map fst d')"
    by (rule group_rows_spec) simp_all
  then show "\<exists>d. grouping_emission_lines cutoff catalog = Inr d \<and>
        map_of d = spec_grouping cutoff catalog \<and> distinct (map fst d)"
    by (simp add: grouping_emission_lines_def spec_grouping_def)
  show "cutoff \<le> 1302 \<longrightarrow>
      grouping_emission_lines cutoff [(''O_I'', 1302), (''O_I'', 1304.5), (''O_I'', 1306)]
        = Inr [(''O_I'', [[1302, 1304.5, 1306]])]"
    by (simp add: grouping_emission_lines_def group_row_def Let_def tolerance_def)
qed

theorem grouping_refines_spec_witness:
  "grouping_emission_lines 1000 [(''O_I'', 1302), (''O_I'', 1304.5), (''O_I'', 1306)]
     = Inr [(''O_I'', [[1302, 1304.5, 1306]])] \<and>
   spec_grouping 1000 [(''O_I'', 1302), (''O_I'', 1304.5), (''O_I'', 1306)] ''O_I''
     = Some [[1302, 1304.5, 1306]]"
proof -
  from grouping_refines_spec [of 1000 "[(''O_I'', 1302), (''O_I'', 1304.5), (''O_I'', 1306)]"]
  obtain d where d: "grouping_emission_lines 1000 [(''O_I'', 1302), (''O_I'', 1304.5), (''O_I'', 1306)] = Inr d"
    "map_of d = spec_grouping 1000 [(''O_I'', 1302), (''O_I'', 1304.5), (''O_I'', 1306)]"
    and ex: "grouping_emission_lines 1000 [(''O_I'', 1302), (''O_I'', 1304.5), (''O_I'', 1306)]
     = Inr [(''O_I'', [[1302, 1304.5, 1306]])]"
    by auto
  from d(1) ex have "d = [(''O_I'', [[1302, 1304.5, 1306]])]" by simp
  with d(2) have "spec_grouping 1000 [(''O_I'', 1302), (''O_I'', 1304.5), (''O_I'', 1306)]
     = map_of [(''O_I'', [[1302, 1304.5, 1306]])]" by (simp only:)
  then have "spec_grouping 1000 [(''O_I'', 1302), (''O_I'', 1304.5), (''O_I'', 1306)] ''O_I''
     = Some [[1302, 1304.5, 1306]]" by simp
  with ex show ?thesis by simp
qed

text \<open>
  Claim C9, as amended. In every group of the grouping's result, (a) no wavelength is below
  the cutoff, and (b) every element after the first is at most the tolerance away from the
  maximum of the elements before it, which is the running maximum of the group when the
  element was inserted. In a group that is monotone (ascending or descending) consecutive
  elements are therefore at most the tolerance apart; two consecutive elements can only
  be further apart in a group that is not monotone, as 100 and 120 are in the group
  100, 110, 100, 120.
\<close>

theorem chain_tolerance:
  assumes "grouping_emission_lines cutoff catalog = Inr d" "(k, gs) \<in> set d" "g \<in> set gs"
  shows "(\<forall>x\<in>set g. cutoff \<le> x) \<and>
         (\<forall>i. 0 < i \<and> i < length g \<longrightarrow> \<bar>Max (set (take i g)) - g ! i\<bar> \<le> tolerance) \<and>
         (sorted g \<or> sorted (rev g) \<longrightarrow>
            (\<forall>i. Suc i < length g \<longrightarrow> \<bar>g ! Suc i - g ! i\<bar> \<le> tolerance))"
proof -
  from grouping_invariant [OF assms]
  have a: "\<forall>x\<in>set g. cutoff \<le> x"
    and b: "\<forall>i. 0 < i \<and> i < length g \<longrightarrow> \<bar>Max (set (take i g)) - g ! i\<bar> \<le> 10"
    by simp_all
  have c: "\<bar>g ! Suc i - g ! i\<bar> \<le> 10" if m: "sorted g \<or> sorted (rev g)" and i: "Suc i < length g" for i
  proof -
    from b i have k: "\<bar>Max (set (take (Suc i) g)) - g ! Suc i\<bar> \<le> 10" by simp
    from m show ?thesis
    proof
      assume "sorted g"
      from Max_take_sorted [OF this i] k show ?thesis by simp
    next
      assume r: "sorted (rev g)"
      from Max_take_sorted_rev [OF r i] k descending_nth [OF r i] show ?thesis by simp
    qed
  qed
  from a b c show ?thesis by (simp add: tolerance_def)
qed

theorem chain_tolerance_witness:
  "grouping_emission_lines 0 [(''O_I'', 100), (''O_I'', 110), (''O_I'', 100), (''O_I'', 120)]
     = Inr [(''O_I'', [[100, 110, 100, 120]])] \<and>
   \<bar>Max (set (take 3 [100, 110, 100, 120])) - [100, 110, 100, 120] ! 3\<bar> \<le> tolerance \<and>
   tolerance < \<bar>[100, 110, 100, 120] ! 3 - [100, 110, 100, 120 :: real] ! 2\<bar>"
proof -
  have h: "grouping_emission_lines 0 [(''O_I'', 100), (''O_I'', 110), (''O_I'', 100), (''O_I'', 120)]
     = Inr [(''O_I'', [[100, 110, 100, 120]])]"
    by (simp add: grouping_emission_lines_def group_row_def Let_def tolerance_def)
  from chain_tolerance [OF h, of "''O_I''" "[[100, 110, 100, 120]]" "[100, 110, 100, 120]"]
  have "\<forall>i. 0 < i \<and> i < length [100, 110, 100, 120 :: real] \<longrightarrow>
     \<bar>Max (set (take i [100, 110, 100, 120])) - [100, 110, 100, 120 :: real] ! i\<bar> \<le> tolerance"
    by simp
  then have "\<bar>Max (set (take 3 [100, 110, 100, 120])) - [100, 110, 100, 120 :: real] ! 3\<bar> \<le> tolerance"
    by (rule allE [of _ 3]) simp
  with h show ?thesis by (simp add: tolerance_def)
qed

text \<open>
  Claim C9 as the specification states it says that consecutive elements may be further
  apart than the tolerance when the chain grew monotonically. No catalog and no cutoff
  give such a group.
\<close>

theorem monotone_chain_counterexample:
  "\<not> (\<exists>cutoff catalog d k gs g i.
        grouping_emission_lines cutoff catalog = Inr d \<and> (k, gs) \<in> set d \<and> g \<in> set gs \<and>
        (sorted g \<or> sorted (rev g)) \<and> Suc i < length g \<and> tolerance < \<bar>g ! Suc i - g ! i\<bar>)"
proof
  assume "\<exists>cutoff catalog d k gs g i.
        grouping_emission_lines cutoff catalog = Inr d \<and> (k, gs) \<in> set d \<and> g \<in> set gs \<and>
        (sorted g \<or> sorted (rev g)) \<and> Suc i < length g \<and> tolerance < \<bar>g ! Suc i - g ! i\<bar>"
  then obtain cutoff catalog d k gs g i where
    h: "grouping_emission_lines cutoff catalog = Inr d" "(k, gs) \<in> set d" "g \<in> set gs"
    and m: "sorted g \<or> sorted (rev g)" and i: "Suc i < length g"
    and far: "tolerance < \<bar>g ! Suc i - g ! i\<bar>"
    by blast
  from grouping_invariant [OF h] i
  have k: "\<bar>Max (set (take (Suc i) g)) - g ! Suc i\<bar> \<le> 10" by simp
  from m have "\<bar>g ! Suc i - g ! i\<bar> \<le> 10"
  proof
    assume "sorted g"
    from Max_take_sorted [OF this i] k show ?thesis by simp
  next
    assume r: "sorted (rev g)"
    from Max_take_sorted_rev [OF r i] k descending_nth [OF r i] show ?thesis by simp
  qed
  with far show False by (simp add: tolerance_def)
qed

text \<open>What can exceed the tolerance in a monotone group is the distance from its first to its last element.\<close>

lemma monotone_chain_span_example:
  "grouping_emission_lines 0 [(''O_I'', 100), (''O_I'', 110), (''O_I'', 120)]
     = Inr [(''O_I'', [[100, 110, 120]])] \<and>
   sorted [100, 110, 120 :: real] \<and> tolerance < \<bar>last [100, 110, 120 :: real] - hd [100, 110, 120]\<bar>"
  by (simp add: grouping_emission_lines_def group_row_def Let_def tolerance_def)

text \<open>
  Claim C10. The method of the class \<open>EmissionLines\<close> and the free function return the
  same result on the catalog and the cutoff of the spectrum.
\<close>

theorem grouping_implementations_equal:
  "EmissionLines_grouping_emission_lines self
     = grouping_emission_lines (min_wavelength self) (rest_lam_data self)"
  by (simp add: EmissionLines_grouping_emission_lines_def grouping_emission_lines_def el_group_rows_eq)

theorem grouping_implementations_equal_witness:
  "EmissionLines_grouping_emission_lines
     \<lparr>resolution = ''HIGH'', wavelength_data = [], rest_lam_data = [(''O_I'', 1302), (''C_IV'', 1550), (''O_I'', 1306)],
      min_wavelength = 1000\<rparr>
   = Inr [(''O_I'', [[1302, 1306]]), (''C_IV'', [[1550]])]"
  using grouping_implementations_equal
    [of "\<lparr>resolution = ''HIGH'', wavelength_data = [], rest_lam_data = [(''O_I'', 1302), (''C_IV'', 1550), (''O_I'', 1306)],
      min_wavelength = 1000\<rparr>"]
  by (simp add: grouping_emission_lines_def group_row_def Let_def tolerance_def)

section \<open>The window builder, the masks and the composite model: proofs\<close>

text \<open>
  Claim C8. On a wavelength array of at least two samples whose first step is not zero,
  both window builders (the free function, which reads the grating, and the method of
  \<open>SpectrumData\<close>, which reads the resolution) return a half-width that is one of the two
  constants 5.0 and 0.5, a flux range of twice the half-width, and a pixel half-width that
  is the floor of the half-width divided by the first step \<open>wavelength_data[1] - wavelength_data[0]\<close>.
  The result depends on nothing but the class and the first two samples.
\<close>

theorem peak_width_finder_result:
  assumes "2 \<le> length wl" and "wl ! 1 \<noteq> wl ! 0" and "wavelength_data self = wl"
    and "pw = (if CHR ''L'' \<in> set grating then 5.0 else 0.5)"
    and "pw' = (if resolution self = ''HIGH'' then 5.0 else 0.5)"
  shows "peak_width_finder grating wl = Inr (pw, \<lfloor>pw / (wl ! 1 - wl ! 0)\<rfloor>, 2 * pw) \<and>
         SpectrumData_peak_width_finder self = Inr (pw', \<lfloor>pw' / (wl ! 1 - wl ! 0)\<rfloor>, 2 * pw') \<and>
         pw \<in> {5.0, 0.5} \<and> pw' \<in> {5.0, 0.5}"
proof -
  from assms(1) have "getitem wl 1 = Inr (wl ! 1)" "getitem wl 0 = Inr (wl ! 0)"
    by (auto simp: getitem_def)
  with assms(2-) show ?thesis
    by (simp add: peak_width_finder_def SpectrumData_peak_width_finder_def Let_def
        PEAK_WIDTH_LOW_RES_def PEAK_WIDTH_HIGH_RES_def)
qed

theorem peak_width_finder_result_witness:
  "peak_width_finder ''G140L'' [1000, 1000.5] = Inr (5, 10, 10) \<and>
   SpectrumData_peak_width_finder
     \<lparr>resolution = ''LOW'', wavelength_data = [1000, 1000.5], rest_lam_data = [], min_wavelength = 0\<rparr>
     = Inr (0.5, 1, 1)"
  using peak_width_finder_result [of "[1000, 1000.5]"
      "\<lparr>resolution = ''LOW'', wavelength_data = [1000, 1000.5], rest_lam_data = [], min_wavelength = 0\<rparr>"
      5 "''G140L''" "0.5"]
  by simp

text \<open>
  Claim C6. A key press handled for one of the two purposes: a key other than \<open>y\<close> and
  \<open>n\<close> is a \<open>SystemExit\<close>, with no decision recorded, and so is the figure that received
  it; \<open>y\<close> appends an accept and \<open>n\<close> a reject to the decision list of the purpose, and the
  figure returns that state before the group's candidates are appended.
\<close>

theorem on_key_decision:
  assumes "purpose = ''Doppler Calculation'' \<or> purpose = ''Noise Detection''"
  shows "(event_key \<noteq> ''y'' \<and> event_key \<noteq> ''n'' \<longrightarrow>
            on_key event_key purpose st = Inl (SystemExit invalid_key) \<and>
            plt_show (st\<lparr>key_events := Some event_key # events\<rparr>) = Inl (SystemExit invalid_key)) \<and>
         on_key ''y'' ''Doppler Calculation'' st = Inr (st\<lparr>doppler_bool_list := doppler_bool_list st @ [True]\<rparr>) \<and>
         on_key ''n'' ''Doppler Calculation'' st = Inr (st\<lparr>doppler_bool_list := doppler_bool_list st @ [False]\<rparr>) \<and>
         on_key ''y'' ''Noise Detection'' st = Inr (st\<lparr>noise_bool_list := noise_bool_list st @ [True]\<rparr>) \<and>
         on_key ''n'' ''Noise Detection'' st = Inr (st\<lparr>noise_bool_list := noise_bool_list st @ [False]\<rparr>) \<and>
         plt_show (st\<lparr>key_events := Some ''y'' # events\<rparr>)
           = Inr (st\<lparr>key_events := events, doppler_bool_list := doppler_bool_list st @ [True]\<rparr>) \<and>
         plt_show (st\<lparr>key_events := Some ''n'' # events\<rparr>)
           = Inr (st\<lparr>key_events := events, doppler_bool_list := doppler_bool_list st @ [False]\<rparr>)"
  using assms by (auto simp: on_key_def plt_show_def)

theorem on_key_decision_witness:
  "on_key ''q'' ''Doppler Calculation''
     \<lparr>noise_bool_list = [], doppler_bool_list = [True], emission_line_list = [], rest_candidates = [],
      obs_candidates = [], emission_line_objs = [], all_fitted_models = [], key_events = []\<rparr>
     = Inl (SystemExit invalid_key) \<and>
   on_key ''n'' ''Doppler Calculation''
     \<lparr>noise_bool_list = [], doppler_bool_list = [True], emission_line_list = [], rest_candidates = [],
      obs_candidates = [], emission_line_objs = [], all_fitted_models = [], key_events = []\<rparr>
     = Inr \<lparr>noise_bool_list = [], doppler_bool_list = [True, False], emission_line_list = [],
            rest_candidates = [], obs_candidates = [], emission_line_objs = [], all_fitted_models = [],
            key_events = []\<rparr>"
  using on_key_decision [of "''Doppler Calculation''" "''q''"
      "\<lparr>noise_bool_list = [], doppler_bool_list = [True], emission_line_list = [], rest_candidates = [],
      obs_candidates = [], emission_line_objs = [], all_fitted_models = [], key_events = []\<rparr>" "[]"]
  by simp

lemma getitem_first_last:
  "grp \<noteq> [] \<Longrightarrow> getitem grp 0 = Inr (hd grp) \<and> getitem grp (length grp - 1) = Inr (last grp)"
  by (cases grp) (simp_all add: getitem_def last_conv_nth hd_conv_nth)

lemma sorted_hd_Min: "sorted xs \<Longrightarrow> xs \<noteq> [] \<Longrightarrow> hd xs = Min (set xs)"
  by (cases xs) (auto intro!: Min_eqI [symmetric])

lemma sorted_last_Max: "sorted xs \<Longrightarrow> xs \<noteq> [] \<Longrightarrow> last xs = Max (set xs)"
proof (rule Max_eqI [symmetric])
  assume s: "sorted xs" and ne: "xs \<noteq> []"
  show "finite (set xs)" by simp
  show "last xs \<in> set xs" using ne by simp
  fix y assume "y \<in> set xs"
  then obtain i where "i < length xs" "y = xs ! i" by (auto simp: in_set_conv_nth)
  with s ne show "y \<le> last xs" by (simp add: last_conv_nth sorted_nth_mono)
qed

lemma np_index_map:
  "np_index xs (map P xs) = Inr (filter P xs)"
proof -
  have "map fst (filter snd (zip xs (map P xs))) = filter P xs"
    by (induction xs) simp_all
  then show ?thesis by (simp add: np_index_def)
qed

lemma np_index_zip:
  assumes "length f = length w"
  shows "np_index f (map P w) = Inr (map snd (filter (\<lambda>(x, y). P x) (zip w f)))"
proof -
  from assms have "map fst (filter snd (zip f (map P w))) = map snd (filter (\<lambda>(x, y). P x) (zip w f))"
    by (induction f w rule: list_induct2) simp_all
  with assms show ?thesis by (simp add: np_index_def)
qed

lemma update_entries_key:
  "(k', gs) \<in> set (AList.update k v al) \<Longrightarrow> (k' = k \<and> gs = v) \<or> (k', gs) \<in> set al"
  by (induction al) (auto split: if_splits)

lemma spec_place_elements:
  "g' \<in> set (spec_place w gs) \<Longrightarrow> g' \<in> set gs \<or> g' = [w] \<or> (\<exists>g0\<in>set gs. g' = g0 @ [w])"
  by (induction gs) (auto simp: spec_place_Nil spec_place_Cons split: if_splits)

lemma group_rows_sorted:
  assumes "\<And>k. sorted (map snd (filter (\<lambda>r. fst r = k) rows))"
    and "\<And>k gs g. (k, gs) \<in> set d \<Longrightarrow> g \<in> set gs \<Longrightarrow>
           g \<noteq> [] \<and> sorted g \<and> (\<forall>x\<in>set g. \<forall>r\<in>set rows. fst r = k \<longrightarrow> x \<le> snd r)"
    and "group_rows m rows d = Inr d'"
  shows "(k, gs) \<in> set d' \<Longrightarrow> g \<in> set gs \<Longrightarrow> sorted g"
  using assms
proof (induction rows arbitrary: d)
  case Nil
  then show ?case by auto
next
  case (Cons r rows)
  let ?old = "case map_of d (fst r) of None \<Rightarrow> [] | Some gs \<Rightarrow> gs"
  let ?d1 = "if snd r < m then d else AList.update (fst r) (spec_place (snd r) ?old) d"
  have inv: "g \<noteq> [] \<and> sorted g \<and> (\<forall>x\<in>set g. \<forall>r'\<in>set (r # rows). fst r' = k \<longrightarrow> x \<le> snd r')"
    if "(k, gs) \<in> set d" "g \<in> set gs" for k gs g
    using that by (rule Cons.prems(4))
  have row: "group_row m r d = Inr ?d1"
    by (rule group_row_eq) (use inv in blast)
  with Cons.prems(5) have rest: "group_rows m rows ?d1 = Inr d'" by simp
  have srt: "sorted (map snd (filter (\<lambda>r. fst r = k) rows))" for k
    using Cons.prems(3) [of k] by (cases "fst r = k") simp_all
  have later: "snd r \<le> snd r'" if "r' \<in> set rows" "fst r' = fst r" for r'
    using Cons.prems(3) [of "fst r"] that by (cases r') auto
  have old: "g \<noteq> [] \<and> sorted g \<and> (\<forall>x\<in>set g. \<forall>r'\<in>set (r # rows). fst r' = fst r \<longrightarrow> x \<le> snd r')"
    if "g \<in> set ?old" for g
  proof (cases "map_of d (fst r)")
    case None
    with that show ?thesis by simp
  next
    case (Some gs0)
    then have "(fst r, gs0) \<in> set d" by (rule map_of_SomeD)
    with that Some show ?thesis using inv by simp
  qed
  have inv1: "g \<noteq> [] \<and> sorted g \<and> (\<forall>x\<in>set g. \<forall>r'\<in>set rows. fst r' = k \<longrightarrow> x \<le> snd r')"
    if mem: "(k, gs) \<in> set ?d1" "g \<in> set gs" for k gs g
  proof (cases "(k, gs) \<in> set d")
    case True
    from inv [OF True mem(2)] show ?thesis by simp
  next
    case False
    with mem(1) have "snd r \<ge> m" by (auto split: if_splits)
    with mem(1) False have "k = fst r \<and> gs = spec_place (snd r) ?old"
      using update_entries_key [of k gs "fst r" "spec_place (snd r) ?old" d] by auto
    with mem(2) have k: "k = fst r" and "g \<in> set (spec_place (snd r) ?old)" by simp_all
    from spec_place_elements [OF this(2)]
    consider "g \<in> set ?old" | "g = [snd r]" | g0 where "g0 \<in> set ?old" "g = g0 @ [snd r]" by blast
    then show ?thesis
    proof cases
      case 1
      from old [OF 1] k show ?thesis by simp
    next
      case 2
      with k later show ?thesis by simp
    next
      case 3
      from old [OF 3(1)] 3(2) k later show ?thesis
        by (auto simp: sorted_append)
    qed
  qed
  show ?case
    by (rule Cons.IH [OF Cons.prems(1,2) srt _ rest]) (use inv1 in blast)
qed

lemma ascending_catalog_sorted_groups:
  assumes "grouping_emission_lines cutoff catalog = Inr d"
    and "\<And>k. sorted (map snd (filter (\<lambda>r. fst r = k) catalog))"
    and "(k, gs) \<in> set d" and "g \<in> set gs"
  shows "sorted g"
  by (rule group_rows_sorted [OF assms(2) _ assms(1) [unfolded grouping_emission_lines_def] assms(3,4)]) simp

text \<open>
  Claim C7. The fit mask of a group has one entry for each sample and is true exactly on
  the samples whose wavelength lies in the open interval from the first rest wavelength of
  the group minus the half-width to the last one plus the half-width. The first and the
  last are the least and the greatest rest wavelength of every group in ascending order,
  and so of every group that the grouping makes from a catalog that is ascending for each
  ion, which is what the grouping requires of the catalog. The mask of one peak is true
  exactly on the samples in the open interval of half the half-width on each side of the
  peak's rest wavelength. Indexing the wavelengths or the fluxes with a mask selects those
  samples.
\<close>

theorem masks_select_open_intervals:
  assumes "grp \<noteq> []" and "length f = length w"
  shows "\<exists>gmask. group_mask w grp peak_width = Inr gmask \<and> length gmask = length w \<and>
           (\<forall>i<length w. gmask ! i \<longleftrightarrow> hd grp - peak_width < w ! i \<and> w ! i < last grp + peak_width) \<and>
           np_index w gmask = Inr (filter (\<lambda>x. hd grp - peak_width < x \<and> x < last grp + peak_width) w) \<and>
           np_index f gmask
             = Inr (map snd (filter (\<lambda>(x, y). hd grp - peak_width < x \<and> x < last grp + peak_width) (zip w f))) \<and>
           (sorted grp \<longrightarrow> hd grp = Min (set grp) \<and> last grp = Max (set grp)) \<and>
           (grouping_emission_lines cutoff catalog = Inr d \<and>
            (\<forall>k. sorted (map snd (filter (\<lambda>r. fst r = k) catalog))) \<and>
            (k, gs) \<in> set d \<and> grp \<in> set gs \<longrightarrow>
              hd grp = Min (set grp) \<and> last grp = Max (set grp)) \<and>
           length (wavelength_mask w wavelength peak_width) = length w \<and>
           (\<forall>i<length w. wavelength_mask w wavelength peak_width ! i \<longleftrightarrow>
              wavelength - peak_width / 2 < w ! i \<and> w ! i < wavelength + peak_width / 2) \<and>
           np_index f (wavelength_mask w wavelength peak_width)
             = Inr (map snd (filter (\<lambda>(x, y). wavelength - peak_width / 2 < x \<and> x < wavelength + peak_width / 2)
                      (zip w f)))"
proof -
  let ?P = "\<lambda>x. hd grp - peak_width < x \<and> x < last grp + peak_width"
  have g: "group_mask w grp peak_width = Inr (map ?P w)"
    using getitem_first_last [OF assms(1)] by (simp add: group_mask_def)
  have s: "sorted grp \<longrightarrow> hd grp = Min (set grp) \<and> last grp = Max (set grp)"
    using assms(1) by (simp add: sorted_hd_Min sorted_last_Max)
  have t: "grouping_emission_lines cutoff catalog = Inr d \<and>
            (\<forall>k. sorted (map snd (filter (\<lambda>r. fst r = k) catalog))) \<and>
            (k, gs) \<in> set d \<and> grp \<in> set gs \<longrightarrow>
              hd grp = Min (set grp) \<and> last grp = Max (set grp)"
  proof
    assume h: "grouping_emission_lines cutoff catalog = Inr d \<and>
            (\<forall>k. sorted (map snd (filter (\<lambda>r. fst r = k) catalog))) \<and>
            (k, gs) \<in> set d \<and> grp \<in> set gs"
    then have "sorted grp"
      by (intro ascending_catalog_sorted_groups [of cutoff catalog d k gs grp]) simp_all
    with s show "hd grp = Min (set grp) \<and> last grp = Max (set grp)" by simp
  qed
  have a: "np_index w (map ?P w) = Inr (filter ?P w)" by (rule np_index_map)
  have b: "np_index f (map ?P w) = Inr (map snd (filter (\<lambda>(x, y). ?P x) (zip w f)))"
    by (rule np_index_zip [OF assms(2)])
  have c: "np_index f (wavelength_mask w wavelength peak_width)
             = Inr (map snd (filter (\<lambda>(x, y). wavelength - peak_width / 2 < x \<and> x < wavelength + peak_width / 2)
                      (zip w f)))"
    unfolding wavelength_mask_def by (rule np_index_zip [OF assms(2)])
  have d: "\<forall>i<length w. wavelength_mask w wavelength peak_width ! i \<longleftrightarrow>
              wavelength - peak_width / 2 < w ! i \<and> w ! i < wavelength + peak_width / 2"
    by (simp add: wavelength_mask_def)
  have e: "length (wavelength_mask w wavelength peak_width) = length w"
    by (simp add: wavelength_mask_def)
  have h: "\<forall>i<length w. map ?P w ! i \<longleftrightarrow> ?P (w ! i)" by simp
  show ?thesis
    apply (rule exI [of _ "map ?P w"])
    using g s t a b c d e h apply (simp only: length_map)
    done
qed

theorem masks_select_open_intervals_witness:
  "group_mask [1, 2, 3, 4, 5, 6, 7] [3, 4] 1.5 = Inr [False, True, True, True, True, False, False] \<and>
   np_index [10, 20, 30, 40, 50, 60, 70] [False, True, True, True, True, False, False] = Inr [20, 30, 40, 50] \<and>
   Min (set [3, 4 :: real]) = 3 \<and> Max (set [3, 4 :: real]) = 4 \<and>
   wavelength_mask [1, 2, 3, 4, 5, 6, 7] 3 1.5 = [False, False, True, False, False, False, False]"
proof -
  from masks_select_open_intervals [where grp = "[3, 4]" and f = "[10, 20, 30, 40, 50, 60, 70]"
      and w = "[1, 2, 3, 4, 5, 6, 7]" and peak_width = "1.5" and wavelength = 3]
  obtain gmask where
    "group_mask [1, 2, 3, 4, 5, 6, 7] [3, 4] 1.5 = Inr gmask"
    "np_index [10, 20, 30, 40, 50, 60, 70] gmask = Inr [20, 30, 40, 50]"
    "Min (set [3, 4 :: real]) = 3 \<and> Max (set [3, 4 :: real]) = 4"
    by auto
  moreover have "group_mask [1, 2, 3, 4, 5, 6, 7] [3, 4] 1.5 = Inr [False, True, True, True, True, False, False]"
    by (simp add: group_mask_def getitem_def)
  moreover have "wavelength_mask [1, 2, 3, 4, 5, 6, 7] 3 1.5 = [False, False, True, False, False, False, False]"
    by (simp add: wavelength_mask_def)
  ultimately show ?thesis by simp
qed

lemma np_max_Max: "xs \<noteq> [] \<Longrightarrow> np_max xs = Inr (Max (set xs))"
proof (cases xs)
  case Nil
  then show "xs \<noteq> [] \<Longrightarrow> ?thesis" by simp
next
  case (Cons x ys)
  have "Max (set (x # ys)) = fold max ys x" by (rule Max.set_eq_fold)
  with Cons show ?thesis by (simp only: np_max_def list.case)
qed

lemma seed_window_set:
  assumes "length f = length w"
  shows "set (map snd (filter (\<lambda>(x, y). P x) (zip w f))) = {f ! i |i. i < length w \<and> P (w ! i)}"
  using assms by (auto simp: set_zip image_iff) force+

lemma submodels_foldl:
  "submodels (foldl (\<lambda>m voigt_profile. Compound m (Voigt voigt_profile)) m0 vs) = submodels m0 @ vs"
  by (induction vs arbitrary: m0) simp_all

lemma composite_model_submodels:
  "profiles \<noteq> [] \<Longrightarrow> \<exists>m. composite_model profiles = Inr m \<and> submodels m = profiles \<and>
      (length profiles = 1 \<longrightarrow> m = Voigt (profiles ! 0))"
  by (cases profiles) (simp_all add: composite_model_def submodels_foldl)

lemma voigt_profiles_result:
  assumes "length f = length w"
    and "\<forall>wl\<in>set grp. \<exists>x\<in>set w. wl - pw / 2 < x \<and> x < wl + pw / 2"
  shows "voigt_profiles w f pw grp =
     Inr (map (\<lambda>wl. \<lparr>x_0 = wl,
                      amplitude_L = Max {f ! i |i. i < length w \<and> wl - pw / 2 < w ! i \<and> w ! i < wl + pw / 2},
                      fwhm_L = 0.1, fwhm_G = 0.1\<rparr>) grp)"
  using assms(2)
proof (induction grp)
  case Nil
  then show ?case by simp
next
  case (Cons wl grp)
  let ?P = "\<lambda>x. wl - pw / 2 < x \<and> x < wl + pw / 2"
  let ?sel = "map snd (filter (\<lambda>(x, y). ?P x) (zip w f))"
  have sel: "np_index f (wavelength_mask w wl pw) = Inr ?sel"
    unfolding wavelength_mask_def by (rule np_index_zip [OF assms(1)])
  have set: "set ?sel = {f ! i |i. i < length w \<and> ?P (w ! i)}"
    by (rule seed_window_set [OF assms(1)])
  from Cons.prems obtain x where "x \<in> set w" "?P x" by auto
  then obtain i where "i < length w" "?P (w ! i)" by (auto simp: in_set_conv_nth)
  then have "f ! i \<in> {f ! i |i. i < length w \<and> ?P (w ! i)}" by blast
  with set have "?sel \<noteq> []" by (metis empty_iff empty_set)
  then have "np_max ?sel = Inr (Max (set ?sel))" by (rule np_max_Max)
  with set have mx: "np_max ?sel = Inr (Max {f ! i |i. i < length w \<and> ?P (w ! i)})" by simp
  from Cons have ih: "voigt_profiles w f pw grp =
     Inr (map (\<lambda>wl. \<lparr>x_0 = wl,
                      amplitude_L = Max {f ! i |i. i < length w \<and> wl - pw / 2 < w ! i \<and> w ! i < wl + pw / 2},
                      fwhm_L = 0.1, fwhm_G = 0.1\<rparr>) grp)" by simp
  show ?case by (simp add: sel mx ih)
qed

text \<open>A rest wavelength with no sample in its seed window: \<open>np.max\<close> raises.\<close>

lemma voigt_profiles_empty_window:
  assumes "length f = length w"
  shows "\<exists>wl\<in>set grp. \<not> (\<exists>x\<in>set w. wl - pw / 2 < x \<and> x < wl + pw / 2) \<Longrightarrow>
         voigt_profiles w f pw grp = Inl ValueError"
proof (induction grp)
  case Nil
  then show ?case by simp
next
  case (Cons wl grp)
  let ?P = "\<lambda>x. wl - pw / 2 < x \<and> x < wl + pw / 2"
  let ?sel = "map snd (filter (\<lambda>(x, y). ?P x) (zip w f))"
  have sel: "np_index f (wavelength_mask w wl pw) = Inr ?sel"
    unfolding wavelength_mask_def by (rule np_index_zip [OF assms])
  show ?case
  proof (cases "\<exists>x\<in>set w. ?P x")
    case False
    then have "filter (\<lambda>(x, y). ?P x) (zip w f) = []"
      by (auto simp: filter_empty_conv dest: set_zip_leftD)
    then have "np_max ?sel = Inl ValueError" by (simp add: np_max_def)
    with sel show ?thesis by simp
  next
    case True
    with Cons.prems have "\<exists>wl\<in>set grp. \<not> (\<exists>x\<in>set w. wl - pw / 2 < x \<and> x < wl + pw / 2)" by auto
    from Cons.IH [OF this] sel show ?thesis
      by (cases ?sel) (simp_all add: np_max_def)
  qed
qed

text \<open>
  Claim C4, as amended. For a group with a sample of the spectrum in the seed window of each
  of its rest wavelengths, the model builder returns one profile for each rest wavelength,
  in order: its centre is the rest wavelength, its amplitude the greatest flux among the
  samples of the seed window (the open interval of half the half-width on each side), and
  both widths are 0.1. The composite model is the sum of these profiles, as many as the
  group has lines, and the model of a group of one line is its one profile. For a group
  with a rest wavelength whose seed window holds no sample, \<open>np.max\<close> raises a ValueError:
  no model is built, nothing catches the error, and the loop over the groups ends with it.
\<close>

theorem composite_model_of_group:
  assumes "grp \<noteq> []" and "length f = length w"
  shows "((\<forall>wl\<in>set grp. \<exists>x\<in>set w. wl - peak_width / 2 < x \<and> x < wl + peak_width / 2) \<longrightarrow>
          (\<exists>profiles m.
             voigt_profiles w f peak_width grp = Inr profiles \<and> composite_model profiles = Inr m \<and>
             submodels m = profiles \<and> length profiles = length grp \<and>
             (\<forall>i<length grp. profiles ! i =
                \<lparr>x_0 = grp ! i,
                 amplitude_L = Max {f ! j |j. j < length w \<and>
                                     grp ! i - peak_width / 2 < w ! j \<and> w ! j < grp ! i + peak_width / 2},
                 fwhm_L = 0.1, fwhm_G = 0.1\<rparr>) \<and>
             (length grp = 1 \<longrightarrow> m = Voigt (profiles ! 0)))) \<and>
         ((\<exists>wl\<in>set grp. \<not> (\<exists>x\<in>set w. wl - peak_width / 2 < x \<and> x < wl + peak_width / 2)) \<longrightarrow>
            voigt_profiles w f peak_width grp = Inl ValueError \<and>
            process_group fitter w f peak_width name grp st = Inl ValueError \<and>
            process_groups fitter w f peak_width name (grp # groups) st = Inl ValueError)"
proof (intro conjI impI)
  assume win: "\<forall>wl\<in>set grp. \<exists>x\<in>set w. wl - peak_width / 2 < x \<and> x < wl + peak_width / 2"
  let ?v = "\<lambda>wl. \<lparr>x_0 = wl,
                 amplitude_L = Max {f ! i |i. i < length w \<and> wl - peak_width / 2 < w ! i \<and> w ! i < wl + peak_width / 2},
                 fwhm_L = 0.1, fwhm_G = 0.1\<rparr>"
  have p: "voigt_profiles w f peak_width grp = Inr (map ?v grp)"
    by (rule voigt_profiles_result [OF assms(2) win])
  from assms(1) have "map ?v grp \<noteq> []" by simp
  from composite_model_submodels [OF this] obtain m where
    m: "composite_model (map ?v grp) = Inr m" "submodels m = map ?v grp"
       "length (map ?v grp) = 1 \<longrightarrow> m = Voigt (map ?v grp ! 0)"
    by blast
  have n: "\<forall>i<length grp. map ?v grp ! i = ?v (grp ! i)" by simp
  show "\<exists>profiles m.
             voigt_profiles w f peak_width grp = Inr profiles \<and> composite_model profiles = Inr m \<and>
             submodels m = profiles \<and> length profiles = length grp \<and>
             (\<forall>i<length grp. profiles ! i =
                \<lparr>x_0 = grp ! i,
                 amplitude_L = Max {f ! j |j. j < length w \<and>
                                     grp ! i - peak_width / 2 < w ! j \<and> w ! j < grp ! i + peak_width / 2},
                 fwhm_L = 0.1, fwhm_G = 0.1\<rparr>) \<and>
             (length grp = 1 \<longrightarrow> m = Voigt (profiles ! 0))"
    apply (rule exI [of _ "map ?v grp"], rule exI [of _ m])
    using p m n apply (simp only: length_map)
    done
next
  assume emp: "\<exists>wl\<in>set grp. \<not> (\<exists>x\<in>set w. wl - peak_width / 2 < x \<and> x < wl + peak_width / 2)"
  show v: "voigt_profiles w f peak_width grp = Inl ValueError"
    by (rule voigt_profiles_empty_window [OF assms(2) emp])
  from getitem_first_last [OF assms(1)] obtain gmask where "group_mask w grp peak_width = Inr gmask"
    by (simp add: group_mask_def)
  with v show g: "process_group fitter w f peak_width name grp st = Inl ValueError"
    by (simp add: process_group_def)
  then show "process_groups fitter w f peak_width name (grp # groups) st = Inl ValueError"
    by simp
qed

theorem composite_model_of_group_witness:
  "voigt_profiles [1, 2, 3, 4, 5, 6, 7] [10, 20, 30, 40, 50, 60, 70] 3 [3, 4]
     = Inr [\<lparr>x_0 = 3, amplitude_L = 40, fwhm_L = 0.1, fwhm_G = 0.1\<rparr>,
            \<lparr>x_0 = 4, amplitude_L = 50, fwhm_L = 0.1, fwhm_G = 0.1\<rparr>] \<and>
   composite_model [\<lparr>x_0 = 3, amplitude_L = 40, fwhm_L = 0.1, fwhm_G = 0.1\<rparr>,
                    \<lparr>x_0 = 4, amplitude_L = 50, fwhm_L = 0.1, fwhm_G = 0.1\<rparr>]
     = Inr (Compound (Voigt \<lparr>x_0 = 3, amplitude_L = 40, fwhm_L = 0.1, fwhm_G = 0.1\<rparr>)
                     (Voigt \<lparr>x_0 = 4, amplitude_L = 50, fwhm_L = 0.1, fwhm_G = 0.1\<rparr>)) \<and>
   (\<exists>profiles. voigt_profiles [1, 2, 3, 4, 5, 6, 7] [10, 20, 30, 40, 50, 60, 70] 3 [3, 4] = Inr profiles \<and>
      length profiles = 2) \<and>
   voigt_profiles [1, 2, 3, 4, 5, 6, 7] [10, 20, 30, 40, 50, 60, 70] 3 [3, 40] = Inl ValueError"
proof -
  have h1: "[3, 4 :: real] \<noteq> []" and h1': "[3, 40 :: real] \<noteq> []" by simp_all
  have h2: "length [10, 20, 30, 40, 50, 60, 70 :: real] = length [1, 2, 3, 4, 5, 6, 7 :: real]" by simp
  have h3: "\<forall>wl\<in>set [3, 4 :: real]. \<exists>x\<in>set [1, 2, 3, 4, 5, 6, 7 :: real]. wl - 3 / 2 < x \<and> x < wl + 3 / 2"
    by simp
  have h4: "\<exists>wl\<in>set [3, 40 :: real]. \<not> (\<exists>x\<in>set [1, 2, 3, 4, 5, 6, 7 :: real]. wl - 3 / 2 < x \<and> x < wl + 3 / 2)"
    by simp
  from composite_model_of_group [OF h1 h2, of 3] h3
  have e: "\<exists>profiles. voigt_profiles [1, 2, 3, 4, 5, 6, 7] [10, 20, 30, 40, 50, 60, 70] 3 [3, 4] = Inr profiles \<and>
      length profiles = 2"
    by auto
  from composite_model_of_group [OF h1' h2, of 3] h4
  have x: "voigt_profiles [1, 2, 3, 4, 5, 6, 7] [10, 20, 30, 40, 50, 60, 70] 3 [3, 40] = Inl ValueError"
    by blast
  have v: "voigt_profiles [1, 2, 3, 4, 5, 6, 7] [10, 20, 30, 40, 50, 60, 70] 3 [3, 4]
     = Inr [\<lparr>x_0 = 3, amplitude_L = 40, fwhm_L = 0.1, fwhm_G = 0.1\<rparr>,
            \<lparr>x_0 = 4, amplitude_L = 50, fwhm_L = 0.1, fwhm_G = 0.1\<rparr>]"
    by (simp add: np_index_def wavelength_mask_def np_max_def)
  have c: "composite_model [\<lparr>x_0 = 3, amplitude_L = 40, fwhm_L = 0.1, fwhm_G = 0.1\<rparr>,
                    \<lparr>x_0 = 4, amplitude_L = 50, fwhm_L = 0.1, fwhm_G = 0.1\<rparr>]
     = Inr (Compound (Voigt \<lparr>x_0 = 3, amplitude_L = 40, fwhm_L = 0.1, fwhm_G = 0.1\<rparr>)
                     (Voigt \<lparr>x_0 = 4, amplitude_L = 50, fwhm_L = 0.1, fwhm_G = 0.1\<rparr>))"
    by (simp add: composite_model_def)
  from v c e x show ?thesis by (simp only: simp_thms)
qed

text \<open>
  Claim C4 as the specification states it holds of every line group. The grouping cuts the
  catalog below the least wavelength only, so a line above the sampled range is a group:
  here \<open>C_IV\<close> at 1550 with samples around 1302. Its seed window is empty, the builder
  raises, and the run ends with the ValueError after the first group was fitted and accepted.
\<close>

theorem empty_seed_window_counterexample:
  "grouping_emission_lines 1300 [(''O_I'', 1302), (''C_IV'', 1550)]
     = Inr [(''O_I'', [[1302]]), (''C_IV'', [[1550]])] \<and>
   voigt_profiles [1301.8, 1301.9, 1302, 1302.1, 1302.2] [1, 2, 3, 2, 1] 0.5 [1550] = Inl ValueError \<and>
   doppler_shift_calc (\<lambda>m x y. Fitted m True) [(''O_I'', [[1302]]), (''C_IV'', [[1550]])]
     [1301.8, 1301.9, 1302, 1302.1, 1302.2] [1, 2, 3, 2, 1] 0.5
     \<lparr>noise_bool_list = [], doppler_bool_list = [], emission_line_list = [], rest_candidates = [],
      obs_candidates = [], emission_line_objs = [], all_fitted_models = [], key_events = [Some ''y'']\<rparr>
     = Inl ValueError"
  by (simp add: grouping_emission_lines_def group_row_def Let_def tolerance_def
      doppler_shift_calc_def process_group_def group_mask_def getitem_def np_index_def
      wavelength_mask_def np_max_def composite_model_def plt_show_def on_key_def)

section \<open>The Doppler estimator: proofs\<close>

lemma group_doppler_result:
  assumes "getitem obs i = Inr obs_i"
  shows "j + length rests \<le> length obs_i \<Longrightarrow>
    group_doppler obs i j rests
      = Inr (map (\<lambda>(rest, observed). doppler_optical rest observed) (zip rests (drop j obs_i)))"
proof (induction rests arbitrary: j)
  case Nil
  then show ?case by simp
next
  case (Cons r rests)
  then have j: "j < length obs_i" and n: "Suc j + length rests \<le> length obs_i" by simp_all
  from j have d: "drop j obs_i = obs_i ! j # drop (Suc j) obs_i" by (simp add: Cons_nth_drop_Suc)
  from j have g: "getitem obs_i j = Inr (obs_i ! j)" by (simp add: getitem_def)
  show ?case by (simp add: assms g d Cons.IH [OF n])
qed

lemma update_fitted_model_fields:
  "rest_candidates (update_fitted_model ref m st) = rest_candidates st"
  "obs_candidates (update_fitted_model ref m st) = obs_candidates st"
  "emission_line_objs (update_fitted_model ref m st) = emission_line_objs st"
  "all_fitted_models (update_fitted_model ref m st) = all_fitted_models st"
  "doppler_bool_list (update_fitted_model ref m st) = doppler_bool_list st"
  by (simp_all add: update_fitted_model_def)

lemma group_mean_velocity:
  assumes "rests \<noteq> []" and "length observed = length rests"
  shows "py_mean (map (\<lambda>(rest, obs). doppler_optical rest obs) (zip rests observed))
           = Inr (group_velocity rests observed)"
proof -
  have "(\<lambda>(rest, obs). doppler_optical rest obs) = (\<lambda>(rest, obs). c_km_s * (obs - rest) / rest)"
    by (simp add: doppler_optical_def fun_eq_iff)
  with assms show ?thesis by (simp add: py_mean_def group_velocity_def mean_def)
qed

lemma doppler_loop_result:
  assumes "list_all2 (\<lambda>rests observed. rests \<noteq> [] \<and> length observed = length rests) rc oc"
  shows "rest_candidates st = rc \<Longrightarrow> obs_candidates st = oc \<Longrightarrow>
         length (emission_line_objs st) = length rc \<Longrightarrow> length (all_fitted_models st) = length rc \<Longrightarrow>
         i + length bs = length rc \<Longrightarrow>
         \<exists>st'. doppler_loop i bs dv st
           = Inr (dv @ map (\<lambda>(rests, observed). group_velocity rests observed)
                         (map snd (filter fst (zip bs (drop i (zip rc oc))))), st')"
proof (induction bs arbitrary: i dv st)
  case Nil
  then show ?case by simp
next
  case (Cons b bs)
  from assms have len: "length oc = length rc" by (simp add: list_all2_lengthD)
  from Cons.prems have i: "i < length rc" and n: "Suc i + length bs = length rc" by simp_all
  from i len have d: "drop i (zip rc oc) = (rc ! i, oc ! i) # drop (Suc i) (zip rc oc)"
    by (simp add: Cons_nth_drop_Suc [symmetric])
  show ?case
  proof (cases b)
    case False
    from Cons.IH [OF Cons.prems(1-4) n, of dv] False d show ?thesis by simp
  next
    case True
    let ?st = "update_fitted_model (emission_line_objs st ! i) (all_fitted_models st ! i) st"
    from list_all2_nthD [OF assms i] have ok: "rc ! i \<noteq> []" "length (oc ! i) = length (rc ! i)"
      by simp_all
    have g1: "getitem (emission_line_objs st) i = Inr (emission_line_objs st ! i)"
      and g2: "getitem (all_fitted_models st) i = Inr (all_fitted_models st ! i)"
      and g3: "getitem (rest_candidates ?st) i = Inr (rc ! i)"
      and g4: "getitem (obs_candidates ?st) i = Inr (oc ! i)"
      using Cons.prems i len by (simp_all add: getitem_def update_fitted_model_fields)
    have gd: "group_doppler (obs_candidates ?st) i 0 (rc ! i)
       = Inr (map (\<lambda>(rest, observed). doppler_optical rest observed) (zip (rc ! i) (oc ! i)))"
      using group_doppler_result [OF g4, of 0 "rc ! i"] ok by simp
    have pm: "py_mean (map (\<lambda>(rest, observed). doppler_optical rest observed) (zip (rc ! i) (oc ! i)))
       = Inr (group_velocity (rc ! i) (oc ! i))"
      by (rule group_mean_velocity [OF ok])
    have "\<exists>st'. doppler_loop (Suc i) bs (dv @ [group_velocity (rc ! i) (oc ! i)]) ?st
           = Inr ((dv @ [group_velocity (rc ! i) (oc ! i)]) @ map (\<lambda>(rests, observed). group_velocity rests observed)
                         (map snd (filter fst (zip bs (drop (Suc i) (zip rc oc))))), st')"
      by (rule Cons.IH) (use n in \<open>simp_all add: update_fitted_model_fields Cons.prems\<close>)
    with True d g1 g2 g3 gd pm show ?thesis by (simp add: Let_def)
  qed
qed

lemma accepted_nonempty:
  "True \<in> set bs \<Longrightarrow> length bs = length xs \<Longrightarrow> filter fst (zip bs xs) \<noteq> []"
proof (induction bs xs rule: list_induct2')
  case (4 b bs x xs)
  then show ?case by (cases b) auto
qed simp_all

lemma doppler_aggregate_result:
  assumes "aligned st" and "length (doppler_bool_list st) = length (rest_candidates st)"
    and "True \<in> set (doppler_bool_list st)"
  shows "\<exists>st'. doppler_aggregate st
           = Inr (mean (map (\<lambda>(rests, observed). group_velocity rests observed) (accepted st)), st')"
proof -
  let ?bs = "doppler_bool_list st" and ?rc = "rest_candidates st" and ?oc = "obs_candidates st"
  from assms(1) have la: "list_all2 (\<lambda>rests observed. rests \<noteq> [] \<and> length observed = length rests) ?rc ?oc"
    and l1: "length (emission_line_objs st) = length ?rc" and l2: "length (all_fitted_models st) = length ?rc"
    by (simp_all add: aligned_def)
  from la have len: "length ?oc = length ?rc" by (simp add: list_all2_lengthD)
  from doppler_loop_result [OF la refl refl l1 l2, of 0 ?bs "[]"] assms(2)
  obtain st' where loop: "doppler_loop 0 ?bs [] st
      = Inr (map (\<lambda>(rests, observed). group_velocity rests observed) (accepted st), st')"
    by (auto simp: accepted_def)
  from assms(2,3) len have "filter fst (zip ?bs (zip ?rc ?oc)) \<noteq> []"
    by (intro accepted_nonempty) simp_all
  then have ne: "accepted st \<noteq> []" by (simp add: accepted_def)
  from assms(3) have "?bs \<noteq> []" by auto
  moreover from this assms(2) have "?rc \<noteq> []" by (metis length_0_conv)
  ultimately show ?thesis using assms(2) loop ne
    by (simp add: doppler_aggregate_def py_mean_def mean_def)
qed

lemma doppler_loop_none_accepted:
  "True \<notin> set bs \<Longrightarrow> doppler_loop i bs dv st = Inr (dv, st)"
  by (induction bs arbitrary: i) auto

lemma group_obs_length:
  "len \<noteq> 1 \<Longrightarrow> group_obs fitted len i n = Inr obs \<Longrightarrow> length obs = n"
proof (induction n arbitrary: i obs)
  case 0
  then show ?case by simp
next
  case (Suc n)
  then show ?case
    by (auto split: model.splits sum.splits)
qed

lemma group_obs_length_single:
  "group_obs fitted (Suc 0) i (Suc 0) = Inr obs \<Longrightarrow> length obs = Suc 0"
  by (auto split: model.splits)

lemma group_obs_length_group:
  assumes "group_obs fitted (length grp) 0 (length grp) = Inr obs"
  shows "length obs = length grp"
proof (cases "length grp = 1")
  case True
  with assms show ?thesis by (simp add: group_obs_length_single)
next
  case False
  from group_obs_length [OF False assms] show ?thesis .
qed

lemma group_mask_nonempty: "group_mask w grp pw = Inr gmask \<Longrightarrow> grp \<noteq> []"
  by (auto simp: group_mask_def getitem_def)

lemma plt_show_fields:
  assumes "plt_show st = Inr st'"
  shows "rest_candidates st' = rest_candidates st" "obs_candidates st' = obs_candidates st"
    "emission_line_objs st' = emission_line_objs st" "all_fitted_models st' = all_fitted_models st"
    "emission_line_list st' = emission_line_list st"
  using assms
  by (auto simp: plt_show_def on_key_def split: list.splits option.splits if_splits)

lemma process_group_aligned:
  assumes "aligned st" and "process_group fitter w f pw name grp st = Inr st'"
  shows "aligned st'"
proof -
  from assms(2) obtain gmask where gm: "group_mask w grp pw = Inr gmask"
    by (auto simp: process_group_def split: sum.splits)
  then have ne: "grp \<noteq> []" by (rule group_mask_nonempty)
  from assms(2) gm obtain profiles f_masked composite w_masked where
    p: "voigt_profiles w f pw grp = Inr profiles" "np_index f gmask = Inr f_masked"
       "composite_model profiles = Inr composite" "np_index w gmask = Inr w_masked"
    by (auto simp: process_group_def Let_def split: sum.splits)
  let ?obj = "\<lparr>wavelength_group = grp, ion = name, obs_lam = None, flux_mask = gmask,
             noise_bool = None, blended_bool = (length f_masked > 1), fitted_model = None,
             continuum = None\<rparr>"
  let ?st1 = "st\<lparr>emission_line_list := emission_line_list st @ [?obj]\<rparr>"
  show ?thesis
  proof (cases "fitter composite w_masked f_masked")
    case (Raises e)
    with assms(2) gm p have "st' = ?st1"
      by (simp add: process_group_def Let_def split: if_splits)
    with assms(1) show ?thesis by (simp add: aligned_def)
  next
    case (Fitted fitted converged)
    let ?st2 = "?st1\<lparr>all_fitted_models := all_fitted_models ?st1 @ [fitted],
                    emission_line_objs := emission_line_objs ?st1 @ [length (emission_line_list st)]\<rparr>"
    from assms(2) gm p Fitted obtain obs st3 where
      o: "group_obs fitted (length grp) 0 (length grp) = Inr obs" and s: "plt_show ?st2 = Inr st3"
      and r: "st' = st3\<lparr>rest_candidates := rest_candidates st3 @ [grp],
                        obs_candidates := obs_candidates st3 @ [obs]\<rparr>"
      by (auto simp: process_group_def Let_def split: sum.splits)
    from group_obs_length_group [OF o] have lo: "length obs = length grp" .
    from plt_show_fields [OF s] assms(1) ne lo r show ?thesis
      by (simp add: aligned_def list_all2_appendI)
  qed
qed

lemma process_groups_aligned:
  "aligned st \<Longrightarrow> process_groups fitter w f pw name groups st = Inr st' \<Longrightarrow> aligned st'"
proof (induction groups arbitrary: st)
  case Nil
  then show ?case by simp
next
  case (Cons grp groups)
  then show ?case
    by (auto split: sum.splits dest: process_group_aligned)
qed

lemma process_ions_aligned:
  "aligned st \<Longrightarrow> process_ions fitter w f pw grouped_lines st = Inr st' \<Longrightarrow> aligned st'"
proof (induction grouped_lines arbitrary: st)
  case Nil
  then show ?case by simp
next
  case (Cons entry grouped_lines)
  then show ?case
    by (cases entry) (auto split: sum.splits dest: process_groups_aligned)
qed

lemma aligned_initial:
  "aligned (st\<lparr>rest_candidates := [], obs_candidates := [], emission_line_objs := [],
               all_fitted_models := []\<rparr>)"
  by (simp add: aligned_def)

lemma group_velocity_rest: "group_velocity rests rests = 0"
proof -
  have "map (\<lambda>(rest, obs). c_km_s * (obs - rest) / rest) (zip rests rests) = map (\<lambda>_. 0) rests"
    by (induction rests) simp_all
  then show ?thesis by (simp add: group_velocity_def mean_def)
qed

lemma mean_zeros: "\<forall>x\<in>set xs. x = 0 \<Longrightarrow> mean xs = 0"
proof -
  assume "\<forall>x\<in>set xs. x = 0"
  then have "sum_list xs = 0" by (induction xs) simp_all
  then show ?thesis by (simp add: mean_def)
qed

lemma messages_differ: "no_decision \<noteq> count_mismatch"
  by (simp add: no_decision_def count_mismatch_def)

text \<open>
  The run of the end-to-end scenario of the specification: the three \<open>O_I\<close> lines, fitted
  one unit above their rest wavelengths, and one key pressed on the figure.
\<close>

lemma scenario_run:
  "process_ions
     (\<lambda>m x y. Fitted (Compound (Compound (Voigt \<lparr>x_0 = 1303, amplitude_L = 1, fwhm_L = 0.1, fwhm_G = 0.1\<rparr>)
                                         (Voigt \<lparr>x_0 = 1305.5, amplitude_L = 2, fwhm_L = 0.1, fwhm_G = 0.1\<rparr>))
                               (Voigt \<lparr>x_0 = 1307, amplitude_L = 3, fwhm_L = 0.1, fwhm_G = 0.1\<rparr>)) True)
     [1302, 1304.5, 1306] [1, 2, 3] 0.5 [(''O_I'', [[1302, 1304.5, 1306]])]
     (\<lparr>noise_bool_list = [], doppler_bool_list = [], emission_line_list = [], rest_candidates = [],
       obs_candidates = [], emission_line_objs = [], all_fitted_models = [], key_events = [Some key]\<rparr>
      \<lparr>rest_candidates := [], obs_candidates := [], emission_line_objs := [], all_fitted_models := []\<rparr>)
   = (if key = ''y'' \<or> key = ''n'' then
     Inr \<lparr>noise_bool_list = [], doppler_bool_list = [key = ''y''],
          emission_line_list =
            [\<lparr>wavelength_group = [1302, 1304.5, 1306], ion = ''O_I'', obs_lam = None,
              flux_mask = [True, True, True], noise_bool = None, blended_bool = True,
              fitted_model = None, continuum = None\<rparr>],
          rest_candidates = [[1302, 1304.5, 1306]], obs_candidates = [[1303, 1305.5, 1307]],
          emission_line_objs = [0],
          all_fitted_models =
            [Compound (Compound (Voigt \<lparr>x_0 = 1303, amplitude_L = 1, fwhm_L = 0.1, fwhm_G = 0.1\<rparr>)
                                (Voigt \<lparr>x_0 = 1305.5, amplitude_L = 2, fwhm_L = 0.1, fwhm_G = 0.1\<rparr>))
                      (Voigt \<lparr>x_0 = 1307, amplitude_L = 3, fwhm_L = 0.1, fwhm_G = 0.1\<rparr>)],
          key_events = []\<rparr> else Inl (SystemExit invalid_key))"
  by (simp add: process_group_def Let_def group_mask_def getitem_def np_index_def wavelength_mask_def
      np_max_def composite_model_def plt_show_def on_key_def)

text \<open>
  Claim C2. In a run whose loop over the groups completes with as many decisions as fitted
  groups, one of them an accept, the function returns the mean, over the accepted groups,
  of the velocity of the group, which is the mean over the pairs of rest and observed
  wavelength of the group of the optical Doppler velocity \<open>c (obs - rest) / rest\<close>. When
  every accepted group has its observed wavelengths equal to its rest wavelengths (none of
  them zero), the returned shift is 0.
\<close>

theorem doppler_shift_is_mean_of_means:
  assumes "process_ions fitter w f peak_width grouped_lines
             (st\<lparr>rest_candidates := [], obs_candidates := [], emission_line_objs := [],
                 all_fitted_models := []\<rparr>) = Inr st1"
    and "length (doppler_bool_list st1) = length (rest_candidates st1)"
    and "True \<in> set (doppler_bool_list st1)"
  shows "\<exists>st2. doppler_shift_calc fitter grouped_lines w f peak_width st
            = Inr (mean (map (\<lambda>(rests, observed). group_velocity rests observed) (accepted st1)), st2) \<and>
           ((\<forall>(rests, observed)\<in>set (accepted st1). observed = rests \<and> 0 \<notin> set rests) \<longrightarrow>
              doppler_shift_calc fitter grouped_lines w f peak_width st = Inr (0, st2))"
proof -
  have "aligned st1" using aligned_initial assms(1) by (rule process_ions_aligned)
  from doppler_aggregate_result [OF this assms(2,3)] obtain st2 where
    a: "doppler_aggregate st1
          = Inr (mean (map (\<lambda>(rests, observed). group_velocity rests observed) (accepted st1)), st2)"
    by blast
  with assms(1) have r: "doppler_shift_calc fitter grouped_lines w f peak_width st
            = Inr (mean (map (\<lambda>(rests, observed). group_velocity rests observed) (accepted st1)), st2)"
    by (simp add: doppler_shift_calc_def)
  have "mean (map (\<lambda>(rests, observed). group_velocity rests observed) (accepted st1)) = 0"
    if "\<forall>(rests, observed)\<in>set (accepted st1). observed = rests \<and> 0 \<notin> set rests"
    using that by (intro mean_zeros) (auto simp: group_velocity_rest)
  with r show ?thesis by auto
qed

theorem doppler_shift_is_mean_of_means_witness:
  "\<exists>st2. doppler_shift_calc
     (\<lambda>m x y. Fitted (Compound (Compound (Voigt \<lparr>x_0 = 1303, amplitude_L = 1, fwhm_L = 0.1, fwhm_G = 0.1\<rparr>)
                                         (Voigt \<lparr>x_0 = 1305.5, amplitude_L = 2, fwhm_L = 0.1, fwhm_G = 0.1\<rparr>))
                               (Voigt \<lparr>x_0 = 1307, amplitude_L = 3, fwhm_L = 0.1, fwhm_G = 0.1\<rparr>)) True)
     [(''O_I'', [[1302, 1304.5, 1306]])] [1302, 1304.5, 1306] [1, 2, 3] 0.5
     \<lparr>noise_bool_list = [], doppler_bool_list = [], emission_line_list = [], rest_candidates = [],
      obs_candidates = [], emission_line_objs = [], all_fitted_models = [], key_events = [Some ''y'']\<rparr>
   = Inr (mean [mean [c_km_s * (1303 - 1302) / 1302, c_km_s * (1305.5 - 1304.5) / 1304.5,
                      c_km_s * (1307 - 1306) / 1306]], st2)"
proof -
  have run: "process_ions
     (\<lambda>m x y. Fitted (Compound (Compound (Voigt \<lparr>x_0 = 1303, amplitude_L = 1, fwhm_L = 0.1, fwhm_G = 0.1\<rparr>)
                                         (Voigt \<lparr>x_0 = 1305.5, amplitude_L = 2, fwhm_L = 0.1, fwhm_G = 0.1\<rparr>))
                               (Voigt \<lparr>x_0 = 1307, amplitude_L = 3, fwhm_L = 0.1, fwhm_G = 0.1\<rparr>)) True)
     [1302, 1304.5, 1306] [1, 2, 3] 0.5 [(''O_I'', [[1302, 1304.5, 1306]])]
     (\<lparr>noise_bool_list = [], doppler_bool_list = [], emission_line_list = [], rest_candidates = [],
       obs_candidates = [], emission_line_objs = [], all_fitted_models = [], key_events = [Some ''y'']\<rparr>
      \<lparr>rest_candidates := [], obs_candidates := [], emission_line_objs := [], all_fitted_models := []\<rparr>)
   = Inr \<lparr>noise_bool_list = [], doppler_bool_list = [True],
          emission_line_list =
            [\<lparr>wavelength_group = [1302, 1304.5, 1306], ion = ''O_I'', obs_lam = None,
              flux_mask = [True, True, True], noise_bool = None, blended_bool = True,
              fitted_model = None, continuum = None\<rparr>],
          rest_candidates = [[1302, 1304.5, 1306]], obs_candidates = [[1303, 1305.5, 1307]],
          emission_line_objs = [0],
          all_fitted_models =
            [Compound (Compound (Voigt \<lparr>x_0 = 1303, amplitude_L = 1, fwhm_L = 0.1, fwhm_G = 0.1\<rparr>)
                                (Voigt \<lparr>x_0 = 1305.5, amplitude_L = 2, fwhm_L = 0.1, fwhm_G = 0.1\<rparr>))
                      (Voigt \<lparr>x_0 = 1307, amplitude_L = 3, fwhm_L = 0.1, fwhm_G = 0.1\<rparr>)],
          key_events = []\<rparr>"
    using scenario_run [of "''y''"] by simp
  from doppler_shift_is_mean_of_means [OF run]
  show ?thesis by (simp add: accepted_def group_velocity_def)
qed

text \<open>
  Claim C3, as amended. After the loop over the groups, the function fails when no decision
  was recorded, with the message of the first assertion, when the decisions are not as many
  as the fitted groups, with the message of the second assertion, and when the counts agree
  and no group was accepted: then it fails rather than returning zero, with the
  ZeroDivisionError that Python raises for \<open>sum(dv) / len(dv)\<close>. The source has no check and
  no message for zero acceptance; that error is raised in no other case of a completed
  loop, and each assertion in its case only.
\<close>

theorem doppler_preconditions_fail:
  assumes "process_ions fitter w f peak_width grouped_lines
             (st\<lparr>rest_candidates := [], obs_candidates := [], emission_line_objs := [],
                 all_fitted_models := []\<rparr>) = Inr st1"
  shows "(doppler_bool_list st1 = [] \<longrightarrow>
            doppler_shift_calc fitter grouped_lines w f peak_width st = Inl (AssertionError no_decision)) \<and>
         (doppler_bool_list st1 \<noteq> [] \<and> length (doppler_bool_list st1) \<noteq> length (rest_candidates st1) \<longrightarrow>
            doppler_shift_calc fitter grouped_lines w f peak_width st = Inl (AssertionError count_mismatch)) \<and>
         (doppler_bool_list st1 \<noteq> [] \<and> length (doppler_bool_list st1) = length (rest_candidates st1) \<and>
          True \<notin> set (doppler_bool_list st1) \<longrightarrow>
            doppler_shift_calc fitter grouped_lines w f peak_width st = Inl ZeroDivisionError) \<and>
         (doppler_shift_calc fitter grouped_lines w f peak_width st = Inl ZeroDivisionError \<longrightarrow>
            doppler_bool_list st1 \<noteq> [] \<and> length (doppler_bool_list st1) = length (rest_candidates st1) \<and>
            True \<notin> set (doppler_bool_list st1)) \<and>
         (doppler_shift_calc fitter grouped_lines w f peak_width st = Inl (AssertionError count_mismatch) \<longrightarrow>
            doppler_bool_list st1 \<noteq> [] \<and> length (doppler_bool_list st1) \<noteq> length (rest_candidates st1)) \<and>
         (doppler_shift_calc fitter grouped_lines w f peak_width st = Inl (AssertionError no_decision) \<longrightarrow>
            doppler_bool_list st1 = [])"
proof -
  let ?bs = "doppler_bool_list st1" and ?rc = "rest_candidates st1"
  have d: "doppler_shift_calc fitter grouped_lines w f peak_width st = doppler_aggregate st1"
    using assms by (simp add: doppler_shift_calc_def)
  have al: "aligned st1" using aligned_initial assms by (rule process_ions_aligned)
  consider (none) "?bs = []" | (mismatch) "?bs \<noteq> []" "length ?bs \<noteq> length ?rc"
    | (rejected) "?bs \<noteq> []" "length ?bs = length ?rc" "True \<notin> set ?bs"
    | (some) "?bs \<noteq> []" "length ?bs = length ?rc" "True \<in> set ?bs"
    by blast
  then show ?thesis
  proof cases
    case none
    then have "doppler_aggregate st1 = Inl (AssertionError no_decision)"
      by (simp add: doppler_aggregate_def)
    with none d show ?thesis using messages_differ by simp
  next
    case mismatch
    then have "doppler_aggregate st1 = Inl (AssertionError count_mismatch)"
      by (simp add: doppler_aggregate_def)
    with mismatch d show ?thesis using messages_differ by simp
  next
    case rejected
    from rejected(1,2) have "?rc \<noteq> []" by (metis length_0_conv)
    with rejected have "doppler_aggregate st1 = Inl ZeroDivisionError"
      by (simp add: doppler_aggregate_def doppler_loop_none_accepted py_mean_def)
    with rejected d show ?thesis by simp
  next
    case some
    from doppler_aggregate_result [OF al some(2,3)] obtain v st2 where
      "doppler_aggregate st1 = Inr (v, st2)" by blast
    with some d show ?thesis by simp
  qed
qed

theorem doppler_preconditions_fail_witness:
  "doppler_shift_calc
     (\<lambda>m x y. Fitted (Compound (Compound (Voigt \<lparr>x_0 = 1303, amplitude_L = 1, fwhm_L = 0.1, fwhm_G = 0.1\<rparr>)
                                         (Voigt \<lparr>x_0 = 1305.5, amplitude_L = 2, fwhm_L = 0.1, fwhm_G = 0.1\<rparr>))
                               (Voigt \<lparr>x_0 = 1307, amplitude_L = 3, fwhm_L = 0.1, fwhm_G = 0.1\<rparr>)) True)
     [(''O_I'', [[1302, 1304.5, 1306]])] [1302, 1304.5, 1306] [1, 2, 3] 0.5
     \<lparr>noise_bool_list = [], doppler_bool_list = [], emission_line_list = [], rest_candidates = [],
      obs_candidates = [], emission_line_objs = [], all_fitted_models = [], key_events = [Some ''n'']\<rparr>
   = Inl ZeroDivisionError"
proof -
  have run: "process_ions
     (\<lambda>m x y. Fitted (Compound (Compound (Voigt \<lparr>x_0 = 1303, amplitude_L = 1, fwhm_L = 0.1, fwhm_G = 0.1\<rparr>)
                                         (Voigt \<lparr>x_0 = 1305.5, amplitude_L = 2, fwhm_L = 0.1, fwhm_G = 0.1\<rparr>))
                               (Voigt \<lparr>x_0 = 1307, amplitude_L = 3, fwhm_L = 0.1, fwhm_G = 0.1\<rparr>)) True)
     [1302, 1304.5, 1306] [1, 2, 3] 0.5 [(''O_I'', [[1302, 1304.5, 1306]])]
     (\<lparr>noise_bool_list = [], doppler_bool_list = [], emission_line_list = [], rest_candidates = [],
       obs_candidates = [], emission_line_objs = [], all_fitted_models = [], key_events = [Some ''n'']\<rparr>
      \<lparr>rest_candidates := [], obs_candidates := [], emission_line_objs := [], all_fitted_models := []\<rparr>)
   = Inr \<lparr>noise_bool_list = [], doppler_bool_list = [False],
          emission_line_list =
            [\<lparr>wavelength_group = [1302, 1304.5, 1306], ion = ''O_I'', obs_lam = None,
              flux_mask = [True, True, True], noise_bool = None, blended_bool = True,
              fitted_model = None, continuum = None\<rparr>],
          rest_candidates = [[1302, 1304.5, 1306]], obs_candidates = [[1303, 1305.5, 1307]],
          emission_line_objs = [0],
          all_fitted_models =
            [Compound (Compound (Voigt \<lparr>x_0 = 1303, amplitude_L = 1, fwhm_L = 0.1, fwhm_G = 0.1\<rparr>)
                                (Voigt \<lparr>x_0 = 1305.5, amplitude_L = 2, fwhm_L = 0.1, fwhm_G = 0.1\<rparr>))
                      (Voigt \<lparr>x_0 = 1307, amplitude_L = 3, fwhm_L = 0.1, fwhm_G = 0.1\<rparr>)],
          key_events = []\<rparr>"
    using scenario_run [of "''n''"] by simp
  from doppler_preconditions_fail [OF run]
  show ?thesis by simp
qed

text \<open>
  Claim C3 as the specification states it has the diagnostic name the invariant that
  failed, zero acceptance as the count mismatch. A run with one fitted group, rejected,
  ends with the bare ZeroDivisionError of the division, and with no assertion's message.
\<close>

theorem zero_acceptance_counterexample:
  "doppler_shift_calc (\<lambda>m x y. Fitted m True) [(''O_I'', [[1302]])]
     [1301.8, 1301.9, 1302, 1302.1, 1302.2] [1, 2, 3, 2, 1] 0.5
     \<lparr>noise_bool_list = [], doppler_bool_list = [], emission_line_list = [], rest_candidates = [],
      obs_candidates = [], emission_line_objs = [], all_fitted_models = [], key_events = [Some ''n'']\<rparr>
   = Inl ZeroDivisionError \<and>
   \<not> (\<exists>message. doppler_shift_calc (\<lambda>m x y. Fitted m True) [(''O_I'', [[1302]])]
     [1301.8, 1301.9, 1302, 1302.1, 1302.2] [1, 2, 3, 2, 1] 0.5
     \<lparr>noise_bool_list = [], doppler_bool_list = [], emission_line_list = [], rest_candidates = [],
      obs_candidates = [], emission_line_objs = [], all_fitted_models = [], key_events = [Some ''n'']\<rparr>
   = Inl (AssertionError message))"
  by (simp add: doppler_shift_calc_def process_group_def Let_def group_mask_def getitem_def np_index_def
      wavelength_mask_def np_max_def composite_model_def plt_show_def on_key_def
      doppler_aggregate_def py_mean_def)

text \<open>
  Claim C5, as amended. When the call of the fitter raises a RuntimeError on the composite
  model of a group, the group adds no rest and no observed wavelengths to the candidates,
  no figure is shown for it (no key is read, no decision recorded), no fitted model and no
  object is queued for the aggregation, and the loop goes on with the next group from that
  state. Its record, with no fitted model and no observed wavelength, has been appended to
  the list \<open>emission_line_list\<close> of the module before the fit and stays there. Every other
  exception of the fitter ends the loop over the groups with that exception. A fit whose
  solver did not converge is a fit to the source: the group is handled as with the same
  model from a solver that converged.
\<close>

theorem failed_fit_is_skipped:
  assumes "group_mask w grp peak_width = Inr gmask"
    and "voigt_profiles w f peak_width grp = Inr profiles"
    and "np_index f gmask = Inr f_masked"
    and "composite_model profiles = Inr composite"
    and "np_index w gmask = Inr w_masked"
  shows "(fitter composite w_masked f_masked = Raises RuntimeError \<longrightarrow>
          (\<exists>st'. process_group fitter w f peak_width name grp st = Inr st' \<and>
             rest_candidates st' = rest_candidates st \<and> obs_candidates st' = obs_candidates st \<and>
             doppler_bool_list st' = doppler_bool_list st \<and> noise_bool_list st' = noise_bool_list st \<and>
             key_events st' = key_events st \<and> emission_line_objs st' = emission_line_objs st \<and>
             all_fitted_models st' = all_fitted_models st \<and>
             emission_line_list st' = emission_line_list st @
               [\<lparr>wavelength_group = grp, ion = name, obs_lam = None, flux_mask = gmask,
                 noise_bool = None, blended_bool = (1 < length f_masked), fitted_model = None,
                 continuum = None\<rparr>] \<and>
             process_groups fitter w f peak_width name (grp # groups) st
               = process_groups fitter w f peak_width name groups st')) \<and>
         (fitter composite w_masked f_masked = Raises e \<and> e \<noteq> RuntimeError \<longrightarrow>
            process_group fitter w f peak_width name grp st = Inl e \<and>
            process_groups fitter w f peak_width name (grp # groups) st = Inl e) \<and>
         (fitter composite w_masked f_masked = Fitted fitted converged \<longrightarrow>
            process_group fitter w f peak_width name grp st
              = process_group (\<lambda>m x y. Fitted fitted True) w f peak_width name grp st)"
  using assms by (simp add: process_group_def Let_def)

theorem failed_fit_is_skipped_witness:
  "process_group (\<lambda>m x y. Raises RuntimeError) [1301.8, 1301.9, 1302, 1302.1, 1302.2] [1, 2, 3, 2, 1] 0.5
     ''O_I'' [1302]
     \<lparr>noise_bool_list = [], doppler_bool_list = [True], emission_line_list = [], rest_candidates = [[1]],
      obs_candidates = [[1]], emission_line_objs = [], all_fitted_models = [], key_events = [Some ''y'']\<rparr>
   = Inr \<lparr>noise_bool_list = [], doppler_bool_list = [True],
          emission_line_list =
            [\<lparr>wavelength_group = [1302], ion = ''O_I'', obs_lam = None,
              flux_mask = [True, True, True, True, True], noise_bool = None, blended_bool = True,
              fitted_model = None, continuum = None\<rparr>],
          rest_candidates = [[1]], obs_candidates = [[1]], emission_line_objs = [], all_fitted_models = [],
          key_events = [Some ''y'']\<rparr>"
proof -
  have h1: "group_mask [1301.8, 1301.9, 1302, 1302.1, 1302.2] [1302] 0.5 = Inr [True, True, True, True, True]"
    by (simp add: group_mask_def getitem_def)
  have h2: "voigt_profiles [1301.8, 1301.9, 1302, 1302.1, 1302.2] [1, 2, 3, 2, 1] 0.5 [1302]
      = Inr [\<lparr>x_0 = 1302, amplitude_L = 3, fwhm_L = 0.1, fwhm_G = 0.1\<rparr>]"
    by (simp add: np_index_def wavelength_mask_def np_max_def)
  have h3: "np_index [1, 2, 3, 2, 1] [True, True, True, True, True] = Inr [1, 2, 3, 2, 1]"
    by (simp add: np_index_def)
  have h4: "composite_model [\<lparr>x_0 = 1302, amplitude_L = 3, fwhm_L = 0.1, fwhm_G = 0.1\<rparr>]
      = Inr (Voigt \<lparr>x_0 = 1302, amplitude_L = 3, fwhm_L = 0.1, fwhm_G = 0.1\<rparr>)"
    by (simp add: composite_model_def)
  have h5: "np_index [1301.8, 1301.9, 1302, 1302.1, 1302.2] [True, True, True, True, True]
      = Inr [1301.8, 1301.9, 1302, 1302.1, 1302.2]"
    by (simp add: np_index_def)
  from failed_fit_is_skipped [OF h1 h2 h3 h4 h5, where fitter = "\<lambda>m x y. Raises RuntimeError"
      and name = "''O_I''" and groups = "[]" and st =
      "\<lparr>noise_bool_list = [], doppler_bool_list = [True], emission_line_list = [], rest_candidates = [[1]],
      obs_candidates = [[1]], emission_line_objs = [], all_fitted_models = [], key_events = [Some ''y'']\<rparr>"]
  obtain st' where "process_group (\<lambda>m x y. Raises RuntimeError) [1301.8, 1301.9, 1302, 1302.1, 1302.2]
     [1, 2, 3, 2, 1] 0.5 ''O_I'' [1302]
     \<lparr>noise_bool_list = [], doppler_bool_list = [True], emission_line_list = [], rest_candidates = [[1]],
      obs_candidates = [[1]], emission_line_objs = [], all_fitted_models = [], key_events = [Some ''y'']\<rparr> = Inr st'"
    "rest_candidates st' = [[1]]" "obs_candidates st' = [[1]]" "doppler_bool_list st' = [True]"
    "noise_bool_list st' = []" "key_events st' = [Some ''y'']" "emission_line_objs st' = []"
    "all_fitted_models st' = []"
    "emission_line_list st' = [\<lparr>wavelength_group = [1302], ion = ''O_I'', obs_lam = None,
              flux_mask = [True, True, True, True, True], noise_bool = None, blended_bool = True,
              fitted_model = None, continuum = None\<rparr>]"
    by auto
  then show ?thesis by (cases st') simp
qed

text \<open>
  Claim C5 as the specification states it has a candidate dropped when the solver fails to
  converge. A fitter that returns its model from a solver that did not converge has the
  group shown, decided by the key and aggregated: here the one group of the run, accepted,
  gives the Doppler shift of the run.
\<close>

theorem unconverged_fit_counterexample:
  "doppler_shift_calc (\<lambda>m x y. Fitted m False) [(''O_I'', [[1302]])]
     [1301.8, 1301.9, 1302, 1302.1, 1302.2] [1, 2, 3, 2, 1] 0.5
     \<lparr>noise_bool_list = [], doppler_bool_list = [], emission_line_list = [], rest_candidates = [],
      obs_candidates = [], emission_line_objs = [], all_fitted_models = [], key_events = [Some ''y'']\<rparr>
   = Inr (0,
       \<lparr>noise_bool_list = [], doppler_bool_list = [True],
        emission_line_list =
          [\<lparr>wavelength_group = [1302], ion = ''O_I'', obs_lam = None,
            flux_mask = [True, True, True, True, True], noise_bool = None, blended_bool = True,
            fitted_model = Some (Voigt \<lparr>x_0 = 1302, amplitude_L = 3, fwhm_L = 0.1, fwhm_G = 0.1\<rparr>),
            continuum = None\<rparr>],
        rest_candidates = [[1302]], obs_candidates = [[1302]], emission_line_objs = [0],
        all_fitted_models = [Voigt \<lparr>x_0 = 1302, amplitude_L = 3, fwhm_L = 0.1, fwhm_G = 0.1\<rparr>],
        key_events = []\<rparr>)"
  by (simp add: doppler_shift_calc_def process_group_def Let_def group_mask_def getitem_def np_index_def
      wavelength_mask_def np_max_def composite_model_def plt_show_def on_key_def
      doppler_aggregate_def update_fitted_model_def py_mean_def doppler_optical_def)

end
